theory Spec2Isabelle
  imports Main "HOL-Library.Word"
begin

section \<open>The binlog streamer of go/vt/binlog/binlog\_streamer.go\<close>

text \<open>
  The file embeds \<^verbatim>\<open>getStatementCategory\<close>, the closures \<^verbatim>\<open>begin\<close> and
  \<^verbatim>\<open>commit\<close>, the body of the loop of \<^verbatim>\<open>parseEvents\<close> and \<^verbatim>\<open>Stream\<close>.
  Packages the source imports but that are not part of it (\<^verbatim>\<open>replication\<close>,
  \<^verbatim>\<open>mysqlctl\<close>, \<^verbatim>\<open>binlogdata\<close>, \<^verbatim>\<open>sync2\<close>) enter as parameters: the methods of
  the \<^verbatim>\<open>BinlogEvent\<close> interface and the functions on positions and GTIDs are the
  fields of one record, so every theorem holds for every implementation of them.
\<close>

subsection \<open>Data of the binlogdata package\<close>

text \<open>
  Modelled from the spec: the enumeration \<^verbatim>\<open>BinlogTransaction_Statement_Category\<close>
  of the generated protobuf code. \<^verbatim>\<open>BL_UNRECOGNIZED\<close> is its zero value, which a Go
  map returns for a key it does not hold.
\<close>

datatype category =
  BL_UNRECOGNIZED | BL_BEGIN | BL_COMMIT | BL_ROLLBACK | BL_DML | BL_DDL | BL_SET

text \<open>
  Modelled from the spec: \<^verbatim>\<open>Charset\<close> is a triple of identifiers compared by value;
  a \<^verbatim>\<open>*Charset\<close> that may be nil is a \<^typ>\<open>'a option\<close>.
\<close>

record charset =
  Client :: int
  Conn :: int
  Server :: int

text \<open>
  Modelled from the spec: \<^verbatim>\<open>BinlogTransaction_Statement\<close> and
  \<^verbatim>\<open>BinlogTransaction\<close>. A Go slice is nil or holds a list: \<^verbatim>\<open>Statements\<close> is
  \<open>None\<close> for nil, and \<^verbatim>\<open>make(..., 0, 10)\<close> is \<open>Some []\<close>. The field
  \<^verbatim>\<open>Timestamp\<close> of a transaction, an \<^verbatim>\<open>int64\<close>, is \<open>Timestamp64\<close> here, since
  \<open>Timestamp\<close> is the method of an event below.
\<close>

record statement =
  Category :: category
  Sql :: string
  Charset :: "charset option"

record transaction =
  Statements :: "statement list option"
  Timestamp64 :: int
  TransactionId :: string

text \<open>\<^verbatim>\<open>len\<close> and \<^verbatim>\<open>range\<close> read a nil slice as the empty list.\<close>

definition slice :: "'a list option \<Rightarrow> 'a list" where
  "slice xs = (case xs of None \<Rightarrow> [] | Some ys \<Rightarrow> ys)"

text \<open>\<^verbatim>\<open>append(xs, ys...)\<close> with at least one element: the result is never nil.\<close>

definition append_slice :: "'a list option \<Rightarrow> 'a list \<Rightarrow> 'a list option" where
  "append_slice xs ys = Some (slice xs @ ys)"

subsection \<open>Errors\<close>

text \<open>
  A Go \<^verbatim>\<open>error\<close> is compared by identity. \<open>EOF\<close> is \<^verbatim>\<open>io.EOF\<close>, \<open>ErrClientEOF\<close> and
  \<open>ErrServerEOF\<close> are the two exported variables, and \<open>Errorf m\<close> is any other
  error value, with message \<open>m\<close>: what \<^verbatim>\<open>fmt.Errorf\<close> builds, and what a callback or a
  decoder may return. A nil error is \<open>None\<close>.
\<close>

datatype error = EOF | ErrClientEOF | ErrServerEOF | Errorf string

fun errorString :: "error \<Rightarrow> string" where
  "errorString EOF = ''EOF''"
| "errorString ErrClientEOF = ''binlog stream consumer ended the reply stream''"
| "errorString ErrServerEOF = ''binlog stream connection was closed by mysqld''"
| "errorString (Errorf m) = m"

text \<open>The verb \<^verbatim>\<open>%d\<close> on an unsigned integer.\<close>

function decimal :: "nat \<Rightarrow> string" where
  "decimal n =
     (if n < 10 then [''0123456789'' ! n]
      else decimal (n div 10) @ [''0123456789'' ! (n mod 10)])"
  by pat_completeness auto
termination
  by (relation "measure id") auto

declare decimal.simps [simp del]

subsection \<open>getStatementCategory\<close>

text \<open>\<^verbatim>\<open>strings.IndexByte\<close>: the index of the first occurrence, or \<open>-1\<close>.\<close>

fun IndexByte :: "string \<Rightarrow> char \<Rightarrow> int" where
  "IndexByte [] c = - 1"
| "IndexByte (x # xs) c =
     (if x = c then 0
      else (let i = IndexByte xs c in if i < 0 then - 1 else i + 1))"

text \<open>
  \<^verbatim>\<open>strings.ToLower\<close> maps every rune of the UTF-8 string through
  \<^verbatim>\<open>unicode.ToLower\<close>. On bytes: an ASCII capital becomes its small letter, and the
  only two other runes whose lower case is an ASCII letter are U+0130 (bytes C4 B0, to
  \<open>i\<close>) and U+212A (bytes E2 84 AA, to \<open>k\<close>). Every other rune stays outside ASCII;
  the model keeps its bytes, which agrees with Go on whether the result is a key of
  \<open>statementPrefixes\<close>, whose keys are ASCII.
\<close>

definition lower_ascii :: "char \<Rightarrow> char" where
  "lower_ascii c =
     (case map_of (zip ''ABCDEFGHIJKLMNOPQRSTUVWXYZ'' ''abcdefghijklmnopqrstuvwxyz'') c of
        Some l \<Rightarrow> l
      | None \<Rightarrow> c)"

fun ToLower :: "string \<Rightarrow> string" where
  "ToLower [] = []"
| "ToLower (c # cs) =
     (if c = CHR 0xC4 \<and> take 1 cs = [CHR 0xB0] then CHR ''i'' # ToLower (drop 1 cs)
      else if c = CHR 0xE2 \<and> take 2 cs = [CHR 0x84, CHR 0xAA]
        then CHR ''k'' # ToLower (drop 2 cs)
      else lower_ascii c # ToLower cs)"

text \<open>The map \<^verbatim>\<open>statementPrefixes\<close>, in the order of the source.\<close>

definition statementPrefixes :: "string \<rightharpoonup> category" where
  "statementPrefixes = map_of
     [(''begin'', BL_BEGIN),
      (''commit'', BL_COMMIT),
      (''rollback'', BL_ROLLBACK),
      (''insert'', BL_DML),
      (''update'', BL_DML),
      (''delete'', BL_DML),
      (''create'', BL_DDL),
      (''alter'', BL_DDL),
      (''drop'', BL_DDL),
      (''truncate'', BL_DDL),
      (''rename'', BL_DDL),
      (''set'', BL_SET)]"

definition getStatementCategory :: "string \<Rightarrow> category" where
  "getStatementCategory sql =
     (let i = IndexByte sql (CHR '' '');
          sql1 = (if i \<ge> 0 then take (nat i) sql else sql)
      in case statementPrefixes (ToLower sql1) of
           None \<Rightarrow> BL_UNRECOGNIZED
         | Some cat \<Rightarrow> cat)"

text \<open>
  The classifier in the words of the specification, for comparison with the code: the
  prefix table of section 4.2.1, and two readings of "first token": up to the first
  space character, and delimited by white space (space, tab, line feed, vertical tab,
  form feed, carriage return).
\<close>

definition spec_prefix_table :: "string \<Rightarrow> category" where
  "spec_prefix_table tok =
     (if tok = ''begin'' then BL_BEGIN
      else if tok = ''commit'' then BL_COMMIT
      else if tok = ''rollback'' then BL_ROLLBACK
      else if tok \<in> {''insert'', ''update'', ''delete''} then BL_DML
      else if tok \<in> {''create'', ''alter'', ''drop'', ''truncate'', ''rename''} then BL_DDL
      else if tok = ''set'' then BL_SET
      else BL_UNRECOGNIZED)"

definition spec_space_token :: "string \<Rightarrow> string" where
  "spec_space_token sql = takeWhile (\<lambda>c. c \<noteq> CHR '' '') sql"

definition spec_is_space :: "char \<Rightarrow> bool" where
  "spec_is_space c \<longleftrightarrow>
     c \<in> {CHR '' '', CHR 0x09, CHR 0x0A, CHR 0x0B, CHR 0x0C, CHR 0x0D}"

definition spec_whitespace_token :: "string \<Rightarrow> string" where
  "spec_whitespace_token sql =
     takeWhile (\<lambda>c. \<not> spec_is_space c) (dropWhile spec_is_space sql)"

subsection \<open>The interfaces parseEvents is written against\<close>

text \<open>
  Modelled from the spec: the \<^verbatim>\<open>Query\<close> payload of a query event, a triple
  (database, charset, sql); the charset may be absent.
\<close>

record query =
  Database :: string
  QueryCharset :: "charset option"
  SQL :: string

text \<open>
  The methods of \<^verbatim>\<open>replication.BinlogEvent\<close> on events \<^typ>\<open>'ev\<close>, the method
  \<^verbatim>\<open>IsZero\<close> and the zero value of \<^verbatim>\<open>replication.BinlogFormat\<close> (\<^typ>\<open>'fmt\<close>), and
  the functions \<^verbatim>\<open>AppendGTID\<close> and \<^verbatim>\<open>EncodeGTID\<close> on positions \<^typ>\<open>'pos\<close> and
  GTIDs \<^typ>\<open>'gtid\<close> (a nil GTID is \<open>None\<close>). None of them is defined in the source
  file; they are parameters. A method returning a value and an error returns a sum,
  \<open>Inl\<close> the error. \<open>GoString\<close>, \<open>PositionString\<close> and \<open>CharsetString\<close> are what
  the verbs \<^verbatim>\<open>%#v\<close> and \<^verbatim>\<open>%v\<close> print. \<^verbatim>\<open>StripChecksum\<close> overwrites the variable
  \<^verbatim>\<open>ev\<close> also when it fails, so its failure carries what \<^verbatim>\<open>%#v\<close> prints for the event
  it returned then. The timestamp of an event is a \<^verbatim>\<open>uint32\<close>; the value of an
  \<^verbatim>\<open>INTVAR_EVENT\<close> and the seeds of a \<^verbatim>\<open>RAND_EVENT\<close>, printed with \<^verbatim>\<open>%d\<close>, are
  taken to be \<^verbatim>\<open>uint64\<close>.
\<close>

record ('ev, 'fmt, 'gtid, 'pos) replication =
  IsValid :: "'ev \<Rightarrow> bool"
  IsFormatDescription :: "'ev \<Rightarrow> bool"
  IsQuery :: "'ev \<Rightarrow> bool"
  IsXID :: "'ev \<Rightarrow> bool"
  IsGTID :: "'ev \<Rightarrow> bool"
  IsRotate :: "'ev \<Rightarrow> bool"
  IsIntVar :: "'ev \<Rightarrow> bool"
  IsRand :: "'ev \<Rightarrow> bool"
  HasGTID :: "'ev \<Rightarrow> 'fmt \<Rightarrow> bool"
  Timestamp :: "'ev \<Rightarrow> 32 word"
  Format :: "'ev \<Rightarrow> error + 'fmt"
  GTID :: "'ev \<Rightarrow> 'fmt \<Rightarrow> error + 'gtid"
  IsBeginGTID :: "'ev \<Rightarrow> 'fmt \<Rightarrow> bool"
  Query :: "'ev \<Rightarrow> 'fmt \<Rightarrow> error + query"
  IntVar :: "'ev \<Rightarrow> 'fmt \<Rightarrow> error + (string \<times> 64 word)"
  Rand :: "'ev \<Rightarrow> 'fmt \<Rightarrow> error + (64 word \<times> 64 word)"
  StripChecksum :: "'ev \<Rightarrow> 'fmt \<Rightarrow> (error \<times> string) + 'ev"
  GoString :: "'ev \<Rightarrow> string"
  IsZero :: "'fmt \<Rightarrow> bool"
  ZeroFormat :: 'fmt
  AppendGTID :: "'pos \<Rightarrow> 'gtid \<Rightarrow> 'pos"
  EncodeGTID :: "'gtid option \<Rightarrow> string"
  PositionString :: "'pos \<Rightarrow> string"
  CharsetString :: "charset \<Rightarrow> string"

text \<open>
  \<^verbatim>\<open>mysqlctl.SlaveConnection\<close> and \<^verbatim>\<open>mysqlctl.MysqlDaemon\<close>, by what their methods
  return to \<^verbatim>\<open>Stream\<close>. The channel that \<^verbatim>\<open>StartBinlogDump\<close> returns is read by the
  loop together with the service context; what the loop sees of both is its list of
  turns, below.
\<close>

record 'pos slave_connection =
  GetCharset :: "error + charset"
  StartBinlogDump :: "'pos \<Rightarrow> error option"

record 'pos mysql_daemon =
  NewSlaveConnection :: "error + 'pos slave_connection"

text \<open>
  The struct \<^verbatim>\<open>Streamer\<close>. The callback \<^verbatim>\<open>sendTransaction\<close> is a closure; its answer
  may depend on the transactions it was handed before, which are its first argument.
\<close>

record 'pos streamer =
  dbname :: string
  mysqld :: "'pos mysql_daemon"
  clientCharset :: "charset option"
  startPos :: 'pos
  sendTransaction :: "transaction list \<Rightarrow> transaction \<Rightarrow> error option"

subsection \<open>The state of parseEvents\<close>

text \<open>
  What the run did that can be seen from outside, in order: a GTID folded into the
  position, a transaction handed to \<^verbatim>\<open>sendTransaction\<close>.
\<close>

datatype 'gtid effect = Folded 'gtid | Sent transaction

fun sent :: "'gtid effect list \<Rightarrow> transaction list" where
  "sent [] = []"
| "sent (Folded g # es) = sent es"
| "sent (Sent t # es) = t # sent es"

fun folded :: "'gtid effect list \<Rightarrow> 'gtid list" where
  "folded [] = []"
| "folded (Folded g # es) = g # folded es"
| "folded (Sent t # es) = folded es"

fun last_folded :: "'gtid effect list \<Rightarrow> 'gtid option" where
  "last_folded [] = None"
| "last_folded (Folded g # es) = (case last_folded es of None \<Rightarrow> Some g | Some h \<Rightarrow> Some h)"
| "last_folded (Sent t # es) = last_folded es"

text \<open>
  The local variables of \<^verbatim>\<open>parseEvents\<close> that its closures share, the number of
  times the run added to the counter \<^verbatim>\<open>BinlogStreamerErrors["ParseEvents"]\<close>, and
  the effects so far.
\<close>

record ('fmt, 'gtid, 'pos) parser =
  statements :: "statement list option"
  format :: 'fmt
  gtid :: "'gtid option"
  pos :: 'pos
  autocommit :: bool
  ParseEventsErrors :: nat
  effects :: "'gtid effect list"

text \<open>
  One turn of the loop ends in the next turn (\<open>Running\<close>, with the variables) or in
  a return of \<^verbatim>\<open>parseEvents\<close> (\<open>Returned\<close>, with the position and the error it
  returns, and the effects up to there).
\<close>

datatype ('fmt, 'gtid, 'pos) outcome =
  Running "('fmt, 'gtid, 'pos) parser"
| Returned 'pos "error option" "'gtid effect list"

definition return :: "('fmt, 'gtid, 'pos) parser \<Rightarrow> error option \<Rightarrow> ('fmt, 'gtid, 'pos) outcome" where
  "return s err = Returned (pos s) err (effects s)"

fun outcome_pos :: "('fmt, 'gtid, 'pos) outcome \<Rightarrow> 'pos" where
  "outcome_pos (Running s) = pos s"
| "outcome_pos (Returned p err es) = p"

fun outcome_effects :: "('fmt, 'gtid, 'pos) outcome \<Rightarrow> 'gtid effect list" where
  "outcome_effects (Running s) = effects s"
| "outcome_effects (Returned p err es) = es"

subsection \<open>The closures begin and commit\<close>

text \<open>The closure \<^verbatim>\<open>begin\<close> (the name is a keyword here, hence the suffix).\<close>

definition begin_tx :: "('fmt, 'gtid, 'pos) parser \<Rightarrow> ('fmt, 'gtid, 'pos) parser" where
  "begin_tx s =
     s\<lparr>ParseEventsErrors :=
         (if statements s \<noteq> None then ParseEventsErrors s + 1 else ParseEventsErrors s),
       statements := Some [],
       autocommit := False\<rparr>"

text \<open>
  \<^verbatim>\<open>commit\<close> returns the variables after it and the error it returns. The conversion
  \<^verbatim>\<open>int64(timestamp)\<close> of a \<^verbatim>\<open>uint32\<close> is its value.
\<close>

definition commit ::
  "('ev, 'fmt, 'gtid, 'pos) replication \<Rightarrow> 'pos streamer \<Rightarrow> ('fmt, 'gtid, 'pos) parser \<Rightarrow>
     32 word \<Rightarrow> ('fmt, 'gtid, 'pos) parser \<times> error option" where
  "commit R bls s timestamp =
     (let trans = \<lparr>Statements = statements s,
                   Timestamp64 = uint timestamp,
                   TransactionId = EncodeGTID R (gtid s)\<rparr>;
          s1 = s\<lparr>effects := effects s @ [Sent trans]\<rparr>
      in case sendTransaction bls (sent (effects s)) trans of
           Some err \<Rightarrow>
             (s1, Some (if err = EOF then ErrClientEOF
                        else Errorf (''send reply error: '' @ errorString err)))
         | None \<Rightarrow> (s1\<lparr>statements := None, autocommit := True\<rparr>, None))"

text \<open>The callers of \<^verbatim>\<open>commit\<close> return its error with the position, or go on.\<close>

definition commit_or_return ::
  "('ev, 'fmt, 'gtid, 'pos) replication \<Rightarrow> 'pos streamer \<Rightarrow> ('fmt, 'gtid, 'pos) parser \<Rightarrow>
     32 word \<Rightarrow> ('fmt, 'gtid, 'pos) outcome" where
  "commit_or_return R bls s timestamp =
     (case commit R bls s timestamp of
        (s1, Some err) \<Rightarrow> return s1 (Some err)
      | (s1, None) \<Rightarrow> Running s1)"

subsection \<open>The body of the loop of parseEvents\<close>

text \<open>
  Lines 230 to 239: an event that has a GTID overwrites \<^verbatim>\<open>gtid\<close> and folds it into
  \<^verbatim>\<open>pos\<close>; a GTID that cannot be decoded is an error.
\<close>

definition absorb_gtid ::
  "('ev, 'fmt, 'gtid, 'pos) replication \<Rightarrow> ('fmt, 'gtid, 'pos) parser \<Rightarrow> 'ev \<Rightarrow>
     error + ('fmt, 'gtid, 'pos) parser" where
  "absorb_gtid R s ev =
     (if HasGTID R ev (format s) then
        (case GTID R ev (format s) of
           Inl err \<Rightarrow>
             Inl (Errorf (''can't get GTID from binlog event: '' @ errorString err @
                          '', event data: '' @ GoString R ev))
         | Inr g \<Rightarrow>
             Inr (s\<lparr>gtid := Some g,
                    pos := AppendGTID R (pos s) g,
                    effects := effects s @ [Folded g]\<rparr>))
      else Inr s)"

text \<open>
  Lines 293 to 307: the statement \<^verbatim>\<open>SET TIMESTAMP\<close> and the statement of the query,
  both with the charset of the query when the test of line 304 holds.
\<close>

definition attach_charset :: "'pos streamer \<Rightarrow> query \<Rightarrow> bool" where
  "attach_charset bls q =
     (case clientCharset bls of
        None \<Rightarrow> True
      | Some c \<Rightarrow> (case QueryCharset q of None \<Rightarrow> False | Some qc \<Rightarrow> qc \<noteq> c))"

definition query_statements ::
  "'pos streamer \<Rightarrow> 32 word \<Rightarrow> category \<Rightarrow> query \<Rightarrow> statement list" where
  "query_statements bls timestamp cat q =
     (let setTimestamp = \<lparr>Category = BL_SET,
                          Sql = ''SET TIMESTAMP='' @ decimal (unat timestamp),
                          Charset = None\<rparr>;
          stmt = \<lparr>Category = cat, Sql = SQL q, Charset = None\<rparr>
      in if attach_charset bls q
         then [setTimestamp\<lparr>Charset := QueryCharset q\<rparr>, stmt\<lparr>Charset := QueryCharset q\<rparr>]
         else [setTimestamp, stmt])"

text \<open>Lines 288 to 314: the default arm of the switch on the category.\<close>

definition query_default ::
  "('ev, 'fmt, 'gtid, 'pos) replication \<Rightarrow> 'pos streamer \<Rightarrow> ('fmt, 'gtid, 'pos) parser \<Rightarrow>
     'ev \<Rightarrow> category \<Rightarrow> query \<Rightarrow> ('fmt, 'gtid, 'pos) outcome" where
  "query_default R bls s ev cat q =
     (if Database q \<noteq> [] \<and> Database q \<noteq> dbname bls then Running s
      else
        (let s1 = s\<lparr>statements :=
                      append_slice (statements s) (query_statements bls (Timestamp R ev) cat q)\<rparr>
         in if autocommit s then commit_or_return R bls s1 (Timestamp R ev)
            else Running s1))"

text \<open>Lines 274 to 314: the switch on the category of a decoded query.\<close>

definition query_arm ::
  "('ev, 'fmt, 'gtid, 'pos) replication \<Rightarrow> 'pos streamer \<Rightarrow> ('fmt, 'gtid, 'pos) parser \<Rightarrow>
     'ev \<Rightarrow> query \<Rightarrow> ('fmt, 'gtid, 'pos) outcome" where
  "query_arm R bls s ev q =
     (case getStatementCategory (SQL q) of
        BL_BEGIN \<Rightarrow> Running (begin_tx s)
      | BL_ROLLBACK \<Rightarrow> commit_or_return R bls (s\<lparr>statements := None\<rparr>) (Timestamp R ev)
      | BL_COMMIT \<Rightarrow> commit_or_return R bls s (Timestamp R ev)
      | cat \<Rightarrow> query_default R bls s ev cat q)"

text \<open>Lines 241 to 315: the switch on the kind of the event; the first case that holds wins.\<close>

definition dispatch ::
  "('ev, 'fmt, 'gtid, 'pos) replication \<Rightarrow> 'pos streamer \<Rightarrow> ('fmt, 'gtid, 'pos) parser \<Rightarrow>
     'ev \<Rightarrow> ('fmt, 'gtid, 'pos) outcome" where
  "dispatch R bls s ev =
     (if IsGTID R ev then
        (if IsBeginGTID R ev (format s) then Running (begin_tx s) else Running s)
      else if IsXID R ev then commit_or_return R bls s (Timestamp R ev)
      else if IsIntVar R ev then
        (case IntVar R ev (format s) of
           Inl err \<Rightarrow>
             return s (Some (Errorf (''can't parse INTVAR_EVENT: '' @ errorString err @
                                     '', event data: '' @ GoString R ev)))
         | Inr (name, val) \<Rightarrow>
             Running (s\<lparr>statements := append_slice (statements s)
                          [\<lparr>Category = BL_SET,
                            Sql = ''SET '' @ name @ ''='' @ decimal (unat val),
                            Charset = None\<rparr>]\<rparr>))
      else if IsRand R ev then
        (case Rand R ev (format s) of
           Inl err \<Rightarrow>
             return s (Some (Errorf (''can't parse RAND_EVENT: '' @ errorString err @
                                     '', event data: '' @ GoString R ev)))
         | Inr (seed1, seed2) \<Rightarrow>
             Running (s\<lparr>statements := append_slice (statements s)
                          [\<lparr>Category = BL_SET,
                            Sql = ''SET @@RAND_SEED1='' @ decimal (unat seed1) @
                                  '', @@RAND_SEED2='' @ decimal (unat seed2),
                            Charset = None\<rparr>]\<rparr>))
      else if IsQuery R ev then
        (case Query R ev (format s) of
           Inl err \<Rightarrow>
             return s (Some (Errorf (''can't get query from binlog event: '' @ errorString err @
                                     '', event data: '' @ GoString R ev)))
         | Inr q \<Rightarrow> query_arm R bls s ev q)
      else Running s)"

text \<open>Lines 196 to 315: what the loop does with one event it received.\<close>

definition parse_event ::
  "('ev, 'fmt, 'gtid, 'pos) replication \<Rightarrow> 'pos streamer \<Rightarrow> ('fmt, 'gtid, 'pos) parser \<Rightarrow>
     'ev \<Rightarrow> ('fmt, 'gtid, 'pos) outcome" where
  "parse_event R bls s ev =
     (if \<not> IsValid R ev then
        return s (Some (Errorf (''can't parse binlog event, invalid data: '' @ GoString R ev)))
      else if IsFormatDescription R ev then
        (case Format R ev of
           Inl err \<Rightarrow>
             return s (Some (Errorf (''can't parse FORMAT_DESCRIPTION_EVENT: '' @
                                     errorString err @ '', event data: '' @ GoString R ev)))
         | Inr f \<Rightarrow> Running (s\<lparr>format := f\<rparr>))
      else if IsZero R (format s) then
        (if IsRotate R ev then Running s
         else return s (Some (Errorf (''got a real event before FORMAT_DESCRIPTION_EVENT: '' @
                                      GoString R ev))))
      else
        (case StripChecksum R ev (format s) of
           Inl (err, shown) \<Rightarrow>
             return s (Some (Errorf (''can't strip checksum from binlog event: '' @
                                     errorString err @ '', event data: '' @ shown)))
         | Inr ev1 \<Rightarrow>
             (case absorb_gtid R s ev1 of
                Inl err \<Rightarrow> return s (Some err)
              | Inr s1 \<Rightarrow> dispatch R bls s1 ev1)))"

subsection \<open>The loop, parseEvents and Stream\<close>

text \<open>
  What one turn of the loop finds: the service no longer running at the head of the
  loop, or, in the \<^verbatim>\<open>select\<close>, the shutdown signal, the channel closed, or an event.
  A list of turns is one schedule of the service context and the channel; when it is
  used up the loop is waiting in the \<^verbatim>\<open>select\<close> and has not returned.
\<close>

datatype 'ev turn = NotRunning | ShuttingDown | Closed | Event 'ev

fun parseEvents_loop ::
  "('ev, 'fmt, 'gtid, 'pos) replication \<Rightarrow> 'pos streamer \<Rightarrow> ('fmt, 'gtid, 'pos) parser \<Rightarrow>
     'ev turn list \<Rightarrow> ('fmt, 'gtid, 'pos) outcome" where
  "parseEvents_loop R bls s [] = Running s"
| "parseEvents_loop R bls s (NotRunning # ts) = return s None"
| "parseEvents_loop R bls s (ShuttingDown # ts) = return s None"
| "parseEvents_loop R bls s (Closed # ts) = return s (Some ErrServerEOF)"
| "parseEvents_loop R bls s (Event ev # ts) =
     (case parse_event R bls s ev of
        Running s1 \<Rightarrow> parseEvents_loop R bls s1 ts
      | Returned p err es \<Rightarrow> Returned p err es)"

definition initial ::
  "('ev, 'fmt, 'gtid, 'pos) replication \<Rightarrow> 'pos streamer \<Rightarrow> ('fmt, 'gtid, 'pos) parser" where
  "initial R bls =
     \<lparr>statements = None, format = ZeroFormat R, gtid = None, pos = startPos bls,
      autocommit = True, ParseEventsErrors = 0, effects = []\<rparr>"

definition parseEvents ::
  "('ev, 'fmt, 'gtid, 'pos) replication \<Rightarrow> 'pos streamer \<Rightarrow> 'ev turn list \<Rightarrow>
     ('fmt, 'gtid, 'pos) outcome" where
  "parseEvents R bls turns = parseEvents_loop R bls (initial R bls) turns"

text \<open>The deferred function of \<^verbatim>\<open>Stream\<close>, which rewrites the error it returns.\<close>

definition stream_deferred ::
  "('ev, 'fmt, 'gtid, 'pos) replication \<Rightarrow> 'pos \<Rightarrow> error option \<Rightarrow> error option" where
  "stream_deferred R stopPos err =
     (case err of
        None \<Rightarrow> None
      | Some e \<Rightarrow>
          Some (Errorf (''stream error @ '' @ PositionString R stopPos @ '': '' @ errorString e)))"

text \<open>Lines 114 to 123: the check of the charsets.\<close>

definition check_charset ::
  "('ev, 'fmt, 'gtid, 'pos) replication \<Rightarrow> 'pos streamer \<Rightarrow> 'pos slave_connection \<Rightarrow>
     error option" where
  "check_charset R bls conn =
     (case clientCharset bls of
        None \<Rightarrow> None
      | Some c \<Rightarrow>
          (case GetCharset conn of
             Inl err \<Rightarrow>
               Some (Errorf (''can't get charset to check binlog stream: '' @ errorString err))
           | Inr cs \<Rightarrow>
               if cs \<noteq> c
               then Some (Errorf (''binlog stream client charset ('' @ CharsetString R c @
                                  '') doesn't match server ('' @ CharsetString R cs @ '')''))
               else None))"

text \<open>
  \<^verbatim>\<open>Stream\<close> returns an error, or has not returned on this schedule.
\<close>

datatype stream_result = Streaming | Ended "error option"

definition Stream ::
  "('ev, 'fmt, 'gtid, 'pos) replication \<Rightarrow> 'pos streamer \<Rightarrow> 'ev turn list \<Rightarrow> stream_result" where
  "Stream R bls turns =
     (case NewSlaveConnection (mysqld bls) of
        Inl err \<Rightarrow> Ended (stream_deferred R (startPos bls) (Some err))
      | Inr conn \<Rightarrow>
          (case check_charset R bls conn of
             Some err \<Rightarrow> Ended (stream_deferred R (startPos bls) (Some err))
           | None \<Rightarrow>
               (case StartBinlogDump conn (startPos bls) of
                  Some err \<Rightarrow> Ended (stream_deferred R (startPos bls) (Some err))
                | None \<Rightarrow>
                    (case parseEvents R bls turns of
                       Running s \<Rightarrow> Streaming
                     | Returned stopPos err es \<Rightarrow> Ended (stream_deferred R stopPos err)))))"

subsection \<open>Predicates the properties are stated with\<close>

text \<open>
  The cases of the switch on the kind of the event: an event reaches the arms of
  \<^verbatim>\<open>INTVAR_EVENT\<close> and \<^verbatim>\<open>RAND_EVENT\<close>, or the arm of \<^verbatim>\<open>QUERY_EVENT\<close>, when no
  earlier case holds.
\<close>

definition set_arm :: "('ev, 'fmt, 'gtid, 'pos) replication \<Rightarrow> 'ev \<Rightarrow> bool" where
  "set_arm R ev \<longleftrightarrow> \<not> IsGTID R ev \<and> \<not> IsXID R ev \<and> (IsIntVar R ev \<or> IsRand R ev)"

definition query_event :: "('ev, 'fmt, 'gtid, 'pos) replication \<Rightarrow> 'ev \<Rightarrow> bool" where
  "query_event R ev \<longleftrightarrow>
     \<not> IsGTID R ev \<and> \<not> IsXID R ev \<and> \<not> IsIntVar R ev \<and> \<not> IsRand R ev \<and> IsQuery R ev"

text \<open>
  The buffer of pending statements against the flag \<^verbatim>\<open>autocommit\<close>: the equivalence
  of the specification, and the half of it that every turn of the loop keeps.
\<close>

definition pending_iff :: "('fmt, 'gtid, 'pos) parser \<Rightarrow> bool" where
  "pending_iff s \<longleftrightarrow> (statements s \<noteq> None) = (\<not> autocommit s)"

definition pending_if :: "('fmt, 'gtid, 'pos) parser \<Rightarrow> bool" where
  "pending_if s \<longleftrightarrow> autocommit s \<or> statements s \<noteq> None"

text \<open>
  Every transaction among the effects has the encoding of the GTID folded last before
  it as its identifier (of the nil GTID when none was folded).
\<close>

definition ids_follow :: "('ev, 'fmt, 'gtid, 'pos) replication \<Rightarrow> 'gtid effect list \<Rightarrow> bool" where
  "ids_follow R es \<longleftrightarrow>
     (\<forall>pre t post. es = pre @ Sent t # post \<longrightarrow>
        TransactionId t = EncodeGTID R (last_folded pre))"

definition gtid_inv ::
  "('ev, 'fmt, 'gtid, 'pos) replication \<Rightarrow> ('fmt, 'gtid, 'pos) parser \<Rightarrow> bool" where
  "gtid_inv R s \<longleftrightarrow> gtid s = last_folded (effects s) \<and> ids_follow R (effects s)"

fun gtid_inv_outcome ::
  "('ev, 'fmt, 'gtid, 'pos) replication \<Rightarrow> ('fmt, 'gtid, 'pos) outcome \<Rightarrow> bool" where
  "gtid_inv_outcome R (Running s) = gtid_inv R s"
| "gtid_inv_outcome R (Returned p err es) = ids_follow R es"

text \<open>
  The answers of the callback: every transaction among the effects was taken
  (\<open>accepted\<close>); or all but the last were, and the last was answered with an error,
  which \<^verbatim>\<open>commit\<close> turned into the error returned (\<open>refused_last\<close>).
\<close>

definition accepted :: "'pos streamer \<Rightarrow> 'gtid effect list \<Rightarrow> bool" where
  "accepted bls es \<longleftrightarrow>
     (\<forall>h t rest. es = h @ Sent t # rest \<longrightarrow> sendTransaction bls (sent h) t = None)"

definition refused_last :: "'pos streamer \<Rightarrow> error option \<Rightarrow> 'gtid effect list \<Rightarrow> bool" where
  "refused_last bls err es \<longleftrightarrow>
     (\<exists>h t e. es = h @ [Sent t] \<and> accepted bls h \<and> sendTransaction bls (sent h) t = Some e \<and>
        err = Some (if e = EOF then ErrClientEOF
                    else Errorf (''send reply error: '' @ errorString e)))"

fun send_inv :: "'pos streamer \<Rightarrow> ('fmt, 'gtid, 'pos) outcome \<Rightarrow> bool" where
  "send_inv bls (Running s) = accepted bls (effects s)"
| "send_inv bls (Returned p err es) =
     ((accepted bls es \<and> err \<noteq> Some ErrClientEOF) \<or> refused_last bls err es)"

text \<open>
  What one event can do to a pending buffer that starts with the statements \<open>B\<close>: keep
  them at its head, with nothing sent and no error counted; replace the buffer by an
  empty one, which \<^verbatim>\<open>begin\<close> does and counts as an error; or send one transaction, with
  the buffer or with no statements, and leave the buffer absent. And what every event
  does: the counter and the number of transactions sent never go down.
\<close>

definition buffer_fate ::
  "statement list \<Rightarrow> ('fmt, 'gtid, 'pos) parser \<Rightarrow> ('fmt, 'gtid, 'pos) parser \<Rightarrow> bool" where
  "buffer_fate B s s2 \<longleftrightarrow>
     ((\<exists>ext. statements s2 = Some (B @ ext)) \<and> sent (effects s2) = sent (effects s) \<and>
        ParseEventsErrors s2 = ParseEventsErrors s)
     \<or> (statements s2 = Some [] \<and> sent (effects s2) = sent (effects s) \<and>
          ParseEventsErrors s2 = ParseEventsErrors s + 1)
     \<or> (statements s2 = None \<and> ParseEventsErrors s2 = ParseEventsErrors s \<and>
          (\<exists>t. sent (effects s2) = sent (effects s) @ [t] \<and>
             ((\<exists>ext. Statements t = Some (B @ ext)) \<or> Statements t = None)))"

definition grows :: "('fmt, 'gtid, 'pos) parser \<Rightarrow> ('fmt, 'gtid, 'pos) parser \<Rightarrow> bool" where
  "grows s s2 \<longleftrightarrow>
     ParseEventsErrors s \<le> ParseEventsErrors s2 \<and>
     length (sent (effects s)) \<le> length (sent (effects s2))"

subsection \<open>An implementation of the interfaces, to run the code on\<close>

text \<open>
  Events as the tests of the package fake them: each kind with its payload. A format is
  a number, zero before the first format description, which decodes to \<open>1\<close>; a GTID
  is a string that encodes as itself; a position is the list of the GTIDs folded into
  it. Stripping the checksum returns the event.
\<close>

datatype fake_event =
  FormatDescriptionEvent
| RotateEvent
| GTIDEvent string bool
| XIDEvent "32 word"
| IntVarEvent string "64 word"
| RandEvent "64 word" "64 word"
| QueryEvent query "32 word"
| InvalidEvent

fun fake_Timestamp :: "fake_event \<Rightarrow> 32 word" where
  "fake_Timestamp (XIDEvent ts) = ts"
| "fake_Timestamp (QueryEvent q ts) = ts"
| "fake_Timestamp ev = 0"

fun fake_HasGTID :: "fake_event \<Rightarrow> bool" where
  "fake_HasGTID (GTIDEvent g b) = True"
| "fake_HasGTID ev = False"

fun fake_GTID :: "fake_event \<Rightarrow> error + string" where
  "fake_GTID (GTIDEvent g b) = Inr g"
| "fake_GTID ev = Inl (Errorf ''no GTID'')"

fun fake_IsBeginGTID :: "fake_event \<Rightarrow> bool" where
  "fake_IsBeginGTID (GTIDEvent g b) = b"
| "fake_IsBeginGTID ev = False"

fun fake_IsXID :: "fake_event \<Rightarrow> bool" where
  "fake_IsXID (XIDEvent ts) = True"
| "fake_IsXID ev = False"

fun fake_IsQuery :: "fake_event \<Rightarrow> bool" where
  "fake_IsQuery (QueryEvent q ts) = True"
| "fake_IsQuery ev = False"

fun fake_Query :: "fake_event \<Rightarrow> error + query" where
  "fake_Query (QueryEvent q ts) = Inr q"
| "fake_Query ev = Inl (Errorf ''not a query'')"

fun fake_IsIntVar :: "fake_event \<Rightarrow> bool" where
  "fake_IsIntVar (IntVarEvent name v) = True"
| "fake_IsIntVar ev = False"

fun fake_IntVar :: "fake_event \<Rightarrow> error + (string \<times> 64 word)" where
  "fake_IntVar (IntVarEvent name v) = Inr (name, v)"
| "fake_IntVar ev = Inl (Errorf ''not an intvar'')"

fun fake_IsRand :: "fake_event \<Rightarrow> bool" where
  "fake_IsRand (RandEvent a b) = True"
| "fake_IsRand ev = False"

fun fake_Rand :: "fake_event \<Rightarrow> error + (64 word \<times> 64 word)" where
  "fake_Rand (RandEvent a b) = Inr (a, b)"
| "fake_Rand ev = Inl (Errorf ''not a rand'')"

fun fake_EncodeGTID :: "string option \<Rightarrow> string" where
  "fake_EncodeGTID None = []"
| "fake_EncodeGTID (Some g) = g"

definition fake :: "(fake_event, nat, string, string list) replication" where
  "fake =
     \<lparr>IsValid = (\<lambda>ev. ev \<noteq> InvalidEvent),
      IsFormatDescription = (\<lambda>ev. ev = FormatDescriptionEvent),
      IsQuery = fake_IsQuery,
      IsXID = fake_IsXID,
      IsGTID = fake_HasGTID,
      IsRotate = (\<lambda>ev. ev = RotateEvent),
      IsIntVar = fake_IsIntVar,
      IsRand = fake_IsRand,
      HasGTID = (\<lambda>ev f. fake_HasGTID ev),
      Timestamp = fake_Timestamp,
      Format = (\<lambda>ev. if ev = FormatDescriptionEvent then Inr 1
                       else Inl (Errorf ''not a format description'')),
      GTID = (\<lambda>ev f. fake_GTID ev),
      IsBeginGTID = (\<lambda>ev f. fake_IsBeginGTID ev),
      Query = (\<lambda>ev f. fake_Query ev),
      IntVar = (\<lambda>ev f. fake_IntVar ev),
      Rand = (\<lambda>ev f. fake_Rand ev),
      StripChecksum = (\<lambda>ev f. Inr ev),
      GoString = (\<lambda>ev. ''event''),
      IsZero = (\<lambda>f. f = 0),
      ZeroFormat = 0,
      AppendGTID = (\<lambda>p g. p @ [g]),
      EncodeGTID = fake_EncodeGTID,
      PositionString = concat,
      CharsetString = (\<lambda>c. ''charset'')\<rparr>"

text \<open>
  A streamer on that implementation: its connection opens and starts the dump, and its
  callback is the third argument.
\<close>

definition fake_streamer ::
  "string \<Rightarrow> charset option \<Rightarrow> (transaction list \<Rightarrow> transaction \<Rightarrow> error option) \<Rightarrow>
     string list streamer" where
  "fake_streamer db cs send =
     \<lparr>dbname = db,
      mysqld = \<lparr>NewSlaveConnection =
                  Inr \<lparr>GetCharset = Inr \<lparr>Client = 33, Conn = 33, Server = 33\<rparr>,
                       StartBinlogDump = (\<lambda>p. None)\<rparr>\<rparr>,
      clientCharset = cs,
      startPos = [],
      sendTransaction = send\<rparr>"

text \<open>A callback that takes every transaction, and one that ends the stream at once.\<close>

definition accept_all :: "transaction list \<Rightarrow> transaction \<Rightarrow> error option" where
  "accept_all h t = None"

definition refuse_all :: "transaction list \<Rightarrow> transaction \<Rightarrow> error option" where
  "refuse_all h t = Some EOF"

text \<open>
  The streamer of the scenarios: database \<open>targetdb\<close>, a consumer that takes every
  transaction; the same with a consumer that ends the stream. Two charsets and a query
  to tell them apart.
\<close>

definition target :: "charset option \<Rightarrow> string list streamer" where
  "target cs = fake_streamer ''targetdb'' cs accept_all"

definition refusing :: "string list streamer" where
  "refusing = fake_streamer ''targetdb'' None refuse_all"

definition utf8 :: charset where
  "utf8 = \<lparr>Client = 33, Conn = 33, Server = 33\<rparr>"

definition latin1 :: charset where
  "latin1 = \<lparr>Client = 8, Conn = 8, Server = 33\<rparr>"

definition update_query :: "string \<Rightarrow> charset option \<Rightarrow> query" where
  "update_query db cs = \<lparr>Database = db, QueryCharset = cs, SQL = ''update t set a = 1''\<rparr>"

text \<open>The first scenario of section 8 of the specification.\<close>

definition scenario1 :: "string \<Rightarrow> string \<Rightarrow> fake_event turn list" where
  "scenario1 g1 targetdb =
     [Event FormatDescriptionEvent,
      Event (GTIDEvent g1 False),
      Event (QueryEvent \<lparr>Database = targetdb, QueryCharset = None,
                          SQL = ''insert into t values(1)''\<rparr> 100),
      Event (XIDEvent 100)]"

text \<open>
  The third and the fifth scenario of section 8: a rollback in an open transaction, and
  the channel closing in one.
\<close>

definition insert_query :: "string \<Rightarrow> query" where
  "insert_query db = \<lparr>Database = db, QueryCharset = None, SQL = ''insert into t values(1)''\<rparr>"

definition scenario3 :: "fake_event turn list" where
  "scenario3 =
     [Event FormatDescriptionEvent,
      Event (GTIDEvent ''g1'' True),
      Event (QueryEvent (insert_query ''targetdb'') 5),
      Event (QueryEvent \<lparr>Database = ''targetdb'', QueryCharset = None, SQL = ''rollback''\<rparr> 6)]"

definition scenario5 :: "fake_event turn list" where
  "scenario5 =
     [Event FormatDescriptionEvent,
      Event (GTIDEvent ''g1'' True),
      Event (QueryEvent (insert_query ''targetdb'') 3),
      Closed]"

text \<open>
  An \<^verbatim>\<open>INTVAR_EVENT\<close> outside a transaction, followed by a transaction that begins and
  commits with no statement of its own.
\<close>

definition intvar_then_begin :: "fake_event turn list" where
  "intvar_then_begin =
     [Event FormatDescriptionEvent,
      Event (IntVarEvent ''INSERT_ID'' 7),
      Event (QueryEvent \<lparr>Database = ''targetdb'', QueryCharset = None, SQL = ''begin''\<rparr> 8),
      Event (QueryEvent \<lparr>Database = ''targetdb'', QueryCharset = None, SQL = ''commit''\<rparr> 9)]"

text \<open>The variables of \<^verbatim>\<open>parseEvents\<close> once the format is known and nothing else happened.\<close>

definition formatted :: "string list streamer \<Rightarrow> (nat, string, string list) parser" where
  "formatted bls = (initial fake bls)\<lparr>format := 1\<rparr>"

lemmas fake_defs =
  fake_def fake_streamer_def accept_all_def refuse_all_def scenario1_def scenario3_def
  scenario5_def insert_query_def formatted_def target_def refusing_def utf8_def
  latin1_def update_query_def intvar_then_begin_def

lemmas code_defs =
  parseEvents_def initial_def parse_event_def absorb_gtid_def dispatch_def query_arm_def
  query_default_def query_statements_def attach_charset_def commit_or_return_def commit_def
  return_def begin_tx_def append_slice_def slice_def getStatementCategory_def
  statementPrefixes_def lower_ascii_def Stream_def stream_deferred_def check_charset_def

section \<open>Properties\<close>

subsection \<open>The classifier of statements\<close>

lemma IndexByte_found:
  "IndexByte sql c \<ge> 0 \<Longrightarrow> take (nat (IndexByte sql c)) sql = takeWhile (\<lambda>x. x \<noteq> c) sql"
  by (induction sql) (auto simp: Let_def nat_add_distrib split: if_splits)

lemma IndexByte_absent:
  "IndexByte sql c < 0 \<Longrightarrow> takeWhile (\<lambda>x. x \<noteq> c) sql = sql"
  by (induction sql) (auto simp: Let_def split: if_splits)

lemma statementPrefixes_table:
  "(case statementPrefixes tok of None \<Rightarrow> BL_UNRECOGNIZED | Some cat \<Rightarrow> cat) =
     spec_prefix_table tok"
  by (simp add: statementPrefixes_def spec_prefix_table_def)

text \<open>
  C4, as the claim states it, fails: a statement whose first word ends in a tab is not
  classified by that word. The token is delimited by white space in the claim and by
  the space character only in the code.
\<close>

theorem getStatementCategory_tab_counterexample:
  "getStatementCategory (''insert'' @ [CHR 0x09] @ ''into t values(1)'') = BL_UNRECOGNIZED
   \<and> spec_prefix_table
        (ToLower (spec_whitespace_token (''insert'' @ [CHR 0x09] @ ''into t values(1)''))) =
      BL_DML"
  by (simp add: getStatementCategory_def statementPrefixes_def lower_ascii_def
      spec_prefix_table_def spec_whitespace_token_def spec_is_space_def)

text \<open>
  C4, amended: for every SQL string, the classifier takes the bytes before the first
  space character (the whole string when it has none), lowercases them, and looks them
  up in the prefix table of the specification; what the table does not hold is
  \<open>BL_UNRECOGNIZED\<close>.
\<close>

theorem getStatementCategory_space_token:
  "getStatementCategory sql = spec_prefix_table (ToLower (spec_space_token sql))"
proof (cases "IndexByte sql (CHR '' '') \<ge> 0")
  case True
  then show ?thesis
    by (simp add: getStatementCategory_def spec_space_token_def IndexByte_found
        statementPrefixes_table)
next
  case False
  then show ?thesis
    by (simp add: getStatementCategory_def spec_space_token_def IndexByte_absent
        statementPrefixes_table)
qed

subsection \<open>Facts about commit and the loop\<close>

lemma commit_or_return_effects:
  "outcome_effects (commit_or_return R bls s ts) =
     effects s @ [Sent \<lparr>Statements = statements s, Timestamp64 = uint ts,
                        TransactionId = EncodeGTID R (gtid s)\<rparr>]"
  by (simp add: commit_or_return_def commit_def return_def Let_def split: option.split)

lemma commit_or_return_pos: "outcome_pos (commit_or_return R bls s ts) = pos s"
  by (simp add: commit_or_return_def commit_def return_def Let_def split: option.split)

lemma commit_or_return_Running:
  assumes "commit_or_return R bls s ts = Running s1"
  shows "s1 = s\<lparr>effects := effects s @ [Sent \<lparr>Statements = statements s,
                                                Timestamp64 = uint ts,
                                                TransactionId = EncodeGTID R (gtid s)\<rparr>],
                 statements := None, autocommit := True\<rparr>"
  using assms
  by (auto simp: commit_or_return_def commit_def return_def Let_def split: option.splits)

lemma parseEvents_loop_append:
  "parseEvents_loop R bls s (xs @ ys) =
     (case parseEvents_loop R bls s xs of
        Running s1 \<Rightarrow> parseEvents_loop R bls s1 ys
      | Returned p err es \<Rightarrow> Returned p err es)"
proof (induction xs arbitrary: s)
  case Nil
  show ?case by simp
next
  case (Cons x xs)
  show ?case
  proof (cases x)
    case (Event ev)
    then show ?thesis using Cons.IH
      by (cases "parse_event R bls s ev") (simp_all add: return_def)
  qed (simp_all add: return_def)
qed

lemma snoc_eq_split:
  assumes "es @ [x] = pre @ y # post"
  shows "(post = [] \<and> es = pre \<and> x = y) \<or> (\<exists>post'. post = post' @ [x] \<and> es = pre @ y # post')"
proof (cases post rule: rev_cases)
  case Nil
  with assms show ?thesis by simp
next
  case (snoc post' z)
  with assms have "es @ [x] = (pre @ y # post') @ [z]" by simp
  then have "es = pre @ y # post'" and "x = z" by simp_all
  with snoc show ?thesis by simp
qed

lemma sent_append [simp]: "sent (es @ fs) = sent es @ sent fs"
  by (induction es rule: sent.induct) simp_all

lemma dispatch_query:
  "query_event R ev \<Longrightarrow> Query R ev (format s) = Inr q \<Longrightarrow>
     dispatch R bls s ev = query_arm R bls s ev q"
  by (simp add: dispatch_def query_event_def)

subsection \<open>The errors of parseEvents and of Stream\<close>

lemma stream_deferred_cases:
  "stream_deferred R p err = Some e \<Longrightarrow>
     \<exists>e0. err = Some e0 \<and>
       e = Errorf (''stream error @ '' @ PositionString R p @ '': '' @ errorString e0)"
  by (cases err) (simp_all add: stream_deferred_def)

lemma Stream_Ended:
  assumes "Stream R bls turns = Ended err"
  shows "\<exists>p err0. err = stream_deferred R p err0"
  using assms
  by (auto simp: Stream_def split: sum.splits option.splits outcome.splits)

lemma Stream_error:
  assumes "Stream R bls turns = Ended (Some e)"
  shows "\<exists>p e0. e = Errorf (''stream error @ '' @ PositionString R p @ '': '' @ errorString e0)"
proof -
  from Stream_Ended[OF assms] obtain p err0 where "Some e = stream_deferred R p err0"
    by blast
  then have "stream_deferred R p err0 = Some e" by simp
  from stream_deferred_cases[OF this] show ?thesis by blast
qed

lemma accepted_Nil [simp]: "accepted bls []"
  by (simp add: accepted_def)

lemma accepted_Folded: "accepted bls es \<Longrightarrow> accepted bls (es @ [Folded g])"
  unfolding accepted_def
proof (intro allI impI)
  fix h t rest
  assume a: "\<forall>h t rest. es = h @ Sent t # rest \<longrightarrow> sendTransaction bls (sent h) t = None"
    and e: "es @ [Folded g] = h @ Sent t # rest"
  from snoc_eq_split[OF e] obtain rest' where "es = h @ Sent t # rest'" by auto
  with a show "sendTransaction bls (sent h) t = None" by blast
qed

lemma accepted_Sent:
  assumes "accepted bls es" and "sendTransaction bls (sent es) u = None"
  shows "accepted bls (es @ [Sent u])"
  unfolding accepted_def
proof (intro allI impI)
  fix h t rest
  assume e: "es @ [Sent u] = h @ Sent t # rest"
  from snoc_eq_split[OF e] show "sendTransaction bls (sent h) t = None"
  proof
    assume "rest = [] \<and> es = h \<and> Sent u = Sent t"
    with assms(2) show ?thesis by simp
  next
    assume "\<exists>rest'. rest = rest' @ [Sent u] \<and> es = h @ Sent t # rest'"
    then obtain rest' where "es = h @ Sent t # rest'" by blast
    with assms(1) show ?thesis unfolding accepted_def by blast
  qed
qed

lemma send_inv_return:
  "accepted bls (effects s) \<Longrightarrow> err \<noteq> Some ErrClientEOF \<Longrightarrow> send_inv bls (return s err)"
  by (simp add: return_def)

lemma send_inv_commit:
  assumes "accepted bls (effects s)"
  shows "send_inv bls (commit_or_return R bls s ts)"
proof -
  let ?t = "\<lparr>Statements = statements s, Timestamp64 = uint ts,
             TransactionId = EncodeGTID R (gtid s)\<rparr>"
  show ?thesis
  proof (cases "sendTransaction bls (sent (effects s)) ?t")
    case None
    with assms have "accepted bls (effects s @ [Sent ?t])" by (intro accepted_Sent)
    with None show ?thesis
      by (simp add: commit_or_return_def commit_def Let_def)
  next
    case (Some e)
    with assms have "refused_last bls
        (Some (if e = EOF then ErrClientEOF else Errorf (''send reply error: '' @ errorString e)))
        (effects s @ [Sent ?t])"
      unfolding refused_last_def by blast
    with Some show ?thesis
      by (simp add: commit_or_return_def commit_def Let_def return_def)
  qed
qed

lemma send_inv_query_default:
  "accepted bls (effects s) \<Longrightarrow> send_inv bls (query_default R bls s ev cat q)"
  by (simp add: query_default_def Let_def send_inv_commit)

lemma send_inv_query_arm:
  "accepted bls (effects s) \<Longrightarrow> send_inv bls (query_arm R bls s ev q)"
  by (simp add: query_arm_def send_inv_commit send_inv_query_default begin_tx_def
      split: category.split)

lemma send_inv_dispatch:
  "accepted bls (effects s) \<Longrightarrow> send_inv bls (dispatch R bls s ev)"
  by (simp add: dispatch_def send_inv_commit send_inv_query_arm send_inv_return begin_tx_def
      split: sum.split prod.split)

lemma accepted_absorb_gtid:
  "accepted bls (effects s) \<Longrightarrow> absorb_gtid R s ev = Inr s1 \<Longrightarrow> accepted bls (effects s1)"
  by (auto simp: absorb_gtid_def accepted_Folded split: if_splits sum.splits)

lemma absorb_gtid_error:
  "absorb_gtid R s ev = Inl err \<Longrightarrow> \<exists>m. err = Errorf m"
  by (auto simp: absorb_gtid_def split: if_splits sum.splits)

lemma send_inv_parse_event:
  "accepted bls (effects s) \<Longrightarrow> send_inv bls (parse_event R bls s ev)"
  by (auto simp: parse_event_def send_inv_return send_inv_dispatch return_def
      split: sum.split prod.split dest: accepted_absorb_gtid absorb_gtid_error)

lemma send_inv_parseEvents_loop:
  "accepted bls (effects s) \<Longrightarrow> send_inv bls (parseEvents_loop R bls s turns)"
proof (induction turns arbitrary: s)
  case Nil
  then show ?case by simp
next
  case (Cons x xs)
  show ?case
  proof (cases x)
    case (Event ev)
    from send_inv_parse_event[OF Cons.prems, of R ev] Cons.IH show ?thesis
      by (cases "parse_event R bls s ev") (simp_all add: Event)
  qed (simp_all add: return_def Cons.prems)
qed

lemma send_inv_parseEvents: "send_inv bls (parseEvents R bls turns)"
  unfolding parseEvents_def by (rule send_inv_parseEvents_loop) (simp add: initial_def)

lemma client_eof_only_if:
  assumes "parseEvents R bls turns = Returned p (Some ErrClientEOF) es"
  shows "\<exists>h t. es = h @ [Sent t] \<and> sendTransaction bls (sent h) t = Some EOF"
proof -
  from send_inv_parseEvents[of bls R turns] assms
  have "refused_last bls (Some ErrClientEOF) es" by simp
  then obtain h t e where "es = h @ [Sent t]" and "sendTransaction bls (sent h) t = Some e"
    and "Some ErrClientEOF =
      Some (if e = EOF then ErrClientEOF else Errorf (''send reply error: '' @ errorString e))"
    unfolding refused_last_def by blast
  moreover from this have "e = EOF" by (simp split: if_splits)
  ultimately show ?thesis by blast
qed

lemma client_eof_if:
  assumes "outcome_effects (parseEvents R bls turns) = h @ Sent t # rest"
    and "sendTransaction bls (sent h) t = Some EOF"
  shows "parseEvents R bls turns =
           Returned (outcome_pos (parseEvents R bls turns)) (Some ErrClientEOF) (h @ [Sent t])"
proof (cases "parseEvents R bls turns")
  case (Running s)
  with send_inv_parseEvents[of bls R turns] assms show ?thesis
    by (auto simp: accepted_def)
next
  case (Returned p err es)
  with assms have es: "es = h @ Sent t # rest" by simp
  from send_inv_parseEvents[of bls R turns] Returned
  have "(accepted bls es \<and> err \<noteq> Some ErrClientEOF) \<or> refused_last bls err es" by simp
  then show ?thesis
  proof
    assume "accepted bls es \<and> err \<noteq> Some ErrClientEOF"
    with es assms(2) show ?thesis by (auto simp: accepted_def)
  next
    assume "refused_last bls err es"
    then obtain h' t' e where l: "es = h' @ [Sent t']" and acc: "accepted bls h'"
      and ans: "sendTransaction bls (sent h') t' = Some e"
      and err: "err = Some (if e = EOF then ErrClientEOF
                            else Errorf (''send reply error: '' @ errorString e))"
      unfolding refused_last_def by blast
    from l es have "h' @ [Sent t'] = h @ Sent t # rest" by simp
    from snoc_eq_split[OF this] show ?thesis
    proof
      assume "rest = [] \<and> h' = h \<and> Sent t' = Sent t"
      with ans assms(2) err l Returned show ?thesis by simp
    next
      assume "\<exists>rest'. rest = rest' @ [Sent t'] \<and> h' = h @ Sent t # rest'"
      with acc assms(2) show ?thesis by (auto simp: accepted_def)
    qed
  qed
qed

lemma commit_or_return_not_server_eof:
  "commit_or_return R bls s ts \<noteq> Returned p (Some ErrServerEOF) es"
  by (simp add: commit_or_return_def commit_def return_def Let_def split: option.split)

lemma dispatch_not_server_eof: "dispatch R bls s ev \<noteq> Returned p (Some ErrServerEOF) es"
  by (simp add: dispatch_def query_arm_def query_default_def return_def Let_def
      commit_or_return_not_server_eof split: sum.split prod.split category.split)

lemma parse_event_not_server_eof: "parse_event R bls s ev \<noteq> Returned p (Some ErrServerEOF) es"
  by (auto simp: parse_event_def return_def dispatch_not_server_eof
      split: sum.split prod.split dest: absorb_gtid_error)

lemma server_eof_only_if:
  assumes "parseEvents_loop R bls s turns = Returned p (Some ErrServerEOF) es"
  shows "\<exists>evs rest s1. turns = map Event evs @ Closed # rest \<and>
           parseEvents_loop R bls s (map Event evs) = Running s1 \<and> p = pos s1 \<and> es = effects s1"
  using assms
proof (induction turns arbitrary: s)
  case Nil
  then show ?case by simp
next
  case (Cons x xs)
  show ?case
  proof (cases x)
    case Closed
    with Cons.prems have "p = pos s \<and> es = effects s" by (simp add: return_def)
    then have "x # xs = map Event [] @ Closed # xs \<and>
        parseEvents_loop R bls s (map Event []) = Running s \<and> p = pos s \<and> es = effects s"
      using Closed by simp
    then show ?thesis by blast
  next
    case (Event ev)
    show ?thesis
    proof (cases "parse_event R bls s ev")
      case (Running s2)
      with Cons.prems Event
      have "parseEvents_loop R bls s2 xs = Returned p (Some ErrServerEOF) es" by simp
      from Cons.IH[OF this] obtain evs rest s1 where
        "xs = map Event evs @ Closed # rest"
        "parseEvents_loop R bls s2 (map Event evs) = Running s1" "p = pos s1" "es = effects s1"
        by blast
      with Running Event have "x # xs = map Event (ev # evs) @ Closed # rest \<and>
          parseEvents_loop R bls s (map Event (ev # evs)) = Running s1 \<and>
          p = pos s1 \<and> es = effects s1"
        by simp
      then show ?thesis by blast
    next
      case (Returned p' err' es')
      with Cons.prems Event parse_event_not_server_eof[of R bls s ev p es] show ?thesis
        by simp
    qed
  qed (use Cons.prems in \<open>simp_all add: return_def\<close>)
qed

text \<open>
  C1, as the claim states it, fails: on the fifth scenario of the specification, where
  the channel closes in an open transaction, \<^verbatim>\<open>parseEvents\<close> returns the sentinel
  \<open>ErrServerEOF\<close>, and \<^verbatim>\<open>Stream\<close> returns another error, which carries the message of
  the sentinel after the prefix: the deferred function of \<^verbatim>\<open>Stream\<close> rewrites every
  error that is not nil.
\<close>

theorem Stream_server_eof_counterexample:
  "parseEvents fake (target None) scenario5 =
     Returned [''g1''] (Some ErrServerEOF) [Folded ''g1'']
   \<and> Stream fake (target None) scenario5 =
       Ended (Some (Errorf ''stream error @ g1: binlog stream connection was closed by mysqld''))
   \<and> Stream fake (target None) scenario5 \<noteq>
       Ended (Some ErrServerEOF)"
  by (simp add: fake_defs code_defs decimal.simps)

text \<open>
  C1, amended: \<^verbatim>\<open>parseEvents\<close> returns the sentinel \<open>ErrServerEOF\<close> when the channel
  of events closes, and only then; it returns the sentinel \<open>ErrClientEOF\<close> when the
  callback \<^verbatim>\<open>sendTransaction\<close> answers a transaction with \<^verbatim>\<open>io.EOF\<close>, and only then.
  \<^verbatim>\<open>Stream\<close> returns every error, these two included, as a new error whose message is
  \<^verbatim>\<open>stream error @ <position>: \<close> followed by the message of the error: an error that
  \<^verbatim>\<open>Stream\<close> returns is never equal to a sentinel, and when the connection was set up
  and \<^verbatim>\<open>parseEvents\<close> returned an error, the position in the message is the one
  \<^verbatim>\<open>parseEvents\<close> returned.
\<close>

theorem sentinels_of_parseEvents_wrapped_by_Stream:
  "(parseEvents R bls turns1 = Running s1 \<longrightarrow>
      parseEvents R bls (turns1 @ Closed # rest1) =
        Returned (pos s1) (Some ErrServerEOF) (effects s1))
   \<and> (parseEvents R bls turns2 = Returned p2 (Some ErrServerEOF) es2 \<longrightarrow>
        (\<exists>evs rest s. turns2 = map Event evs @ Closed # rest \<and>
           parseEvents R bls (map Event evs) = Running s \<and> p2 = pos s \<and> es2 = effects s))
   \<and> (outcome_effects (parseEvents R bls turns3) = h3 @ Sent t3 # rest3 \<and>
      sendTransaction bls (sent h3) t3 = Some EOF \<longrightarrow>
        parseEvents R bls turns3 =
          Returned (outcome_pos (parseEvents R bls turns3)) (Some ErrClientEOF)
            (h3 @ [Sent t3]))
   \<and> (parseEvents R bls turns4 = Returned p4 (Some ErrClientEOF) es4 \<longrightarrow>
        (\<exists>h t. es4 = h @ [Sent t] \<and> sendTransaction bls (sent h) t = Some EOF))
   \<and> (Stream R bls turns5 = Ended (Some e) \<longrightarrow>
        e \<noteq> ErrClientEOF \<and> e \<noteq> ErrServerEOF \<and>
        (\<exists>p e0. e = Errorf (''stream error @ '' @ PositionString R p @ '': '' @
                             errorString e0)))
   \<and> (NewSlaveConnection (mysqld bls) = Inr conn \<and> check_charset R bls conn = None \<and>
      StartBinlogDump conn (startPos bls) = None \<and>
      parseEvents R bls turns6 = Returned p6 (Some e6) es6 \<longrightarrow>
        Stream R bls turns6 =
          Ended (Some (Errorf (''stream error @ '' @ PositionString R p6 @ '': '' @
                               errorString e6))))"
proof (intro conjI impI)
  assume "parseEvents R bls turns1 = Running s1"
  then show "parseEvents R bls (turns1 @ Closed # rest1) =
      Returned (pos s1) (Some ErrServerEOF) (effects s1)"
    by (simp add: parseEvents_def parseEvents_loop_append return_def)
next
  assume "parseEvents R bls turns2 = Returned p2 (Some ErrServerEOF) es2"
  then show "\<exists>evs rest s. turns2 = map Event evs @ Closed # rest \<and>
      parseEvents R bls (map Event evs) = Running s \<and> p2 = pos s \<and> es2 = effects s"
    unfolding parseEvents_def by (rule server_eof_only_if)
next
  assume "outcome_effects (parseEvents R bls turns3) = h3 @ Sent t3 # rest3 \<and>
      sendTransaction bls (sent h3) t3 = Some EOF"
  then show "parseEvents R bls turns3 =
      Returned (outcome_pos (parseEvents R bls turns3)) (Some ErrClientEOF) (h3 @ [Sent t3])"
    using client_eof_if[of R bls turns3 h3 t3 rest3] by simp
next
  assume "parseEvents R bls turns4 = Returned p4 (Some ErrClientEOF) es4"
  then show "\<exists>h t. es4 = h @ [Sent t] \<and> sendTransaction bls (sent h) t = Some EOF"
    by (rule client_eof_only_if)
next
  assume a: "Stream R bls turns5 = Ended (Some e)"
  from Stream_error[OF a] show "e \<noteq> ErrClientEOF" by auto
  from Stream_error[OF a] show "e \<noteq> ErrServerEOF" by auto
  from Stream_error[OF a]
  show "\<exists>p e0. e = Errorf (''stream error @ '' @ PositionString R p @ '': '' @ errorString e0)" .
next
  assume "NewSlaveConnection (mysqld bls) = Inr conn \<and> check_charset R bls conn = None \<and>
      StartBinlogDump conn (startPos bls) = None \<and>
      parseEvents R bls turns6 = Returned p6 (Some e6) es6"
  then show "Stream R bls turns6 =
      Ended (Some (Errorf (''stream error @ '' @ PositionString R p6 @ '': '' @
                           errorString e6)))"
    by (simp add: Stream_def stream_deferred_def)
qed

theorem sentinels_of_parseEvents_wrapped_by_Stream_witness:
  "parseEvents fake refusing [Event FormatDescriptionEvent, Event (GTIDEvent ''g1'' True)] =
     Running ((formatted refusing)
                \<lparr>gtid := Some ''g1'', pos := [''g1''], effects := [Folded ''g1''],
                 statements := Some [], autocommit := False\<rparr>)
   \<and> parseEvents fake refusing
       ([Event FormatDescriptionEvent, Event (GTIDEvent ''g1'' True)] @ Closed # []) =
     Returned [''g1''] (Some ErrServerEOF) [Folded ''g1'']
   \<and> sendTransaction refusing (sent [Folded ''g1''])
       \<lparr>Statements =
          Some [\<lparr>Category = BL_SET, Sql = ''SET TIMESTAMP=100'', Charset = None\<rparr>,
                \<lparr>Category = BL_DML, Sql = ''insert into t values(1)'', Charset = None\<rparr>],
        Timestamp64 = 100, TransactionId = ''g1''\<rparr> = Some EOF
   \<and> parseEvents fake refusing (scenario1 ''g1'' ''targetdb'') =
     Returned [''g1''] (Some ErrClientEOF)
       ([Folded ''g1''] @
        [Sent \<lparr>Statements =
                 Some [\<lparr>Category = BL_SET, Sql = ''SET TIMESTAMP=100'', Charset = None\<rparr>,
                       \<lparr>Category = BL_DML, Sql = ''insert into t values(1)'',
                         Charset = None\<rparr>],
               Timestamp64 = 100, TransactionId = ''g1''\<rparr>])
   \<and> NewSlaveConnection (mysqld refusing) =
       Inr \<lparr>GetCharset = Inr \<lparr>Client = 33, Conn = 33, Server = 33\<rparr>,
            StartBinlogDump = (\<lambda>p. None)\<rparr>
   \<and> Stream fake refusing (scenario1 ''g1'' ''targetdb'') =
       Ended (Some (Errorf
         ''stream error @ g1: binlog stream consumer ended the reply stream''))"
  using sentinels_of_parseEvents_wrapped_by_Stream
    [where R = fake and bls = refusing
       and ?turns1.0 = "[Event FormatDescriptionEvent, Event (GTIDEvent ''g1'' True)]"
       and ?s1.0 = "(formatted refusing)
                \<lparr>gtid := Some ''g1'', pos := [''g1''], effects := [Folded ''g1''],
                 statements := Some [], autocommit := False\<rparr>"
       and ?rest1.0 = "[]"
       and ?turns2.0 = "[Event FormatDescriptionEvent, Event (GTIDEvent ''g1'' True)] @
                        Closed # []"
       and ?p2.0 = "[''g1'']" and ?es2.0 = "[Folded ''g1'']"
       and ?turns3.0 = "scenario1 ''g1'' ''targetdb''"
       and ?h3.0 = "[Folded ''g1'']"
       and ?t3.0 = "\<lparr>Statements =
          Some [\<lparr>Category = BL_SET, Sql = ''SET TIMESTAMP=100'', Charset = None\<rparr>,
                \<lparr>Category = BL_DML, Sql = ''insert into t values(1)'', Charset = None\<rparr>],
        Timestamp64 = 100, TransactionId = ''g1''\<rparr>"
       and ?rest3.0 = "[]"
       and ?turns4.0 = "scenario1 ''g1'' ''targetdb''"
       and ?p4.0 = "[''g1'']"
       and ?es4.0 = "[Folded ''g1''] @
        [Sent \<lparr>Statements =
                 Some [\<lparr>Category = BL_SET, Sql = ''SET TIMESTAMP=100'', Charset = None\<rparr>,
                       \<lparr>Category = BL_DML, Sql = ''insert into t values(1)'',
                         Charset = None\<rparr>],
               Timestamp64 = 100, TransactionId = ''g1''\<rparr>]"
       and ?turns5.0 = "scenario1 ''g1'' ''targetdb''"
       and e = "Errorf ''stream error @ g1: binlog stream consumer ended the reply stream''"
       and conn = "\<lparr>GetCharset = Inr \<lparr>Client = 33, Conn = 33, Server = 33\<rparr>,
                    StartBinlogDump = (\<lambda>p. None)\<rparr>"
       and ?turns6.0 = "scenario1 ''g1'' ''targetdb''"
       and ?p6.0 = "[''g1'']"
       and ?e6.0 = ErrClientEOF]
  by (simp add: fake_defs code_defs decimal.simps)

subsection \<open>The pending buffer and the autocommit flag\<close>

lemma query_default_pending:
  assumes "query_default R bls s ev cat q = Running s1"
  shows "(pending_iff s \<longrightarrow> pending_iff s1) \<and> (pending_if s \<longrightarrow> pending_if s1)"
  using assms
  by (auto simp: query_default_def Let_def pending_iff_def pending_if_def append_slice_def
      split: if_splits dest!: commit_or_return_Running)

lemma query_arm_pending:
  assumes "query_arm R bls s ev q = Running s1"
  shows "(pending_iff s \<longrightarrow> pending_iff s1) \<and> (pending_if s \<longrightarrow> pending_if s1)"
proof (cases "getStatementCategory (SQL q) \<in> {BL_BEGIN, BL_ROLLBACK, BL_COMMIT}")
  case True
  with assms show ?thesis
    by (auto simp: query_arm_def begin_tx_def pending_iff_def pending_if_def
        dest!: commit_or_return_Running)
next
  case False
  with assms have "query_default R bls s ev (getStatementCategory (SQL q)) q = Running s1"
    by (simp add: query_arm_def split: category.splits)
  from query_default_pending[OF this] show ?thesis .
qed

lemma dispatch_pending_if:
  assumes "dispatch R bls s ev = Running s1" and "pending_if s"
  shows "pending_if s1"
proof (cases "query_event R ev")
  case True
  with assms show ?thesis
    by (auto simp: dispatch_def query_event_def return_def split: sum.splits
        dest: query_arm_pending)
next
  case False
  with assms show ?thesis
    by (auto simp: dispatch_def query_event_def begin_tx_def pending_if_def return_def
        append_slice_def
        split: if_splits sum.splits prod.splits dest!: commit_or_return_Running)
qed

lemma dispatch_pending_iff:
  assumes "dispatch R bls s ev = Running s1" and "pending_iff s" and "\<not> set_arm R ev"
  shows "pending_iff s1"
proof (cases "query_event R ev")
  case True
  with assms show ?thesis
    by (auto simp: dispatch_def query_event_def return_def split: sum.splits
        dest: query_arm_pending)
next
  case False
  with assms show ?thesis
    by (auto simp: dispatch_def query_event_def set_arm_def begin_tx_def pending_iff_def
        return_def
        split: if_splits dest!: commit_or_return_Running)
qed

lemma dispatch_set_arm:
  assumes "dispatch R bls s ev = Running s1" and "set_arm R ev"
  shows "statements s1 \<noteq> None \<and> autocommit s1 = autocommit s"
  using assms
  by (auto simp: dispatch_def set_arm_def return_def append_slice_def
      split: if_splits sum.splits prod.splits)

lemma absorb_gtid_pending_if:
  "absorb_gtid R s ev = Inr s1 \<Longrightarrow> pending_if s \<Longrightarrow> pending_if s1"
  by (auto simp: absorb_gtid_def pending_if_def split: if_splits sum.splits)

lemma pending_if_format: "pending_if (s\<lparr>format := f\<rparr>) = pending_if s"
  by (simp add: pending_if_def)

lemma parse_event_pending_if:
  assumes "parse_event R bls s ev = Running s1" and "pending_if s"
  shows "pending_if s1"
  using assms
  by (auto simp: parse_event_def return_def pending_if_format
      split: if_splits sum.splits prod.splits
      dest: absorb_gtid_pending_if dispatch_pending_if)

lemma parseEvents_loop_pending_if:
  "parseEvents_loop R bls s turns = Running s1 \<Longrightarrow> pending_if s \<Longrightarrow> pending_if s1"
proof (induction turns arbitrary: s)
  case Nil
  then show ?case by simp
next
  case (Cons x xs)
  show ?case
  proof (cases x)
    case (Event ev)
    with Cons.prems obtain s2 where p: "parse_event R bls s ev = Running s2"
      and l: "parseEvents_loop R bls s2 xs = Running s1"
      by (auto split: outcome.splits)
    from parse_event_pending_if[OF p Cons.prems(2)] Cons.IH[OF l] show ?thesis by simp
  qed (use Cons.prems in \<open>simp_all add: return_def\<close>)
qed

text \<open>
  C2, as the claim states it, fails: after a format description and an
  \<^verbatim>\<open>INTVAR_EVENT\<close> outside a transaction, the loop is between two events with a
  pending buffer of one statement and the flag \<^verbatim>\<open>autocommit\<close> still true.
\<close>

theorem intvar_autocommit_counterexample:
  "parseEvents fake (target None)
     [Event FormatDescriptionEvent, Event (IntVarEvent ''INSERT_ID'' 7)] =
   Running \<lparr>statements =
              Some [\<lparr>Category = BL_SET, Sql = ''SET INSERT_ID=7'', Charset = None\<rparr>],
            format = 1, gtid = None, pos = [], autocommit = True,
            ParseEventsErrors = 0, effects = []\<rparr>"
  by (simp add: fake_defs code_defs decimal.simps)

text \<open>
  C2, amended: at every point between processed events in \<^verbatim>\<open>parseEvents\<close>, the
  pending buffer is non-absent if the flag \<^verbatim>\<open>autocommit\<close> is false. Every arm of the
  switch on the event other than those of \<^verbatim>\<open>INTVAR_EVENT\<close> and \<^verbatim>\<open>RAND_EVENT\<close>
  (begin, commit, the dispatch of a query) preserves the equivalence "non-absent if and
  only if \<^verbatim>\<open>autocommit\<close> is false"; the arms of \<^verbatim>\<open>INTVAR_EVENT\<close> and \<^verbatim>\<open>RAND_EVENT\<close>
  leave the buffer non-absent and the flag as it was.
\<close>

theorem pending_and_autocommit:
  "(parseEvents R bls turns = Running s0 \<longrightarrow> autocommit s0 \<or> statements s0 \<noteq> None)
   \<and> (dispatch R bls s ev = Running s1 \<and> \<not> set_arm R ev \<and>
        (statements s \<noteq> None) = (\<not> autocommit s) \<longrightarrow>
      (statements s1 \<noteq> None) = (\<not> autocommit s1))
   \<and> (dispatch R bls s2 ev2 = Running s3 \<and> set_arm R ev2 \<longrightarrow>
      statements s3 \<noteq> None \<and> autocommit s3 = autocommit s2)"
proof (intro conjI impI)
  assume "parseEvents R bls turns = Running s0"
  then have "pending_if s0"
    unfolding parseEvents_def
    by (rule parseEvents_loop_pending_if) (simp add: pending_if_def initial_def)
  then show "autocommit s0 \<or> statements s0 \<noteq> None" by (simp add: pending_if_def)
next
  assume "dispatch R bls s ev = Running s1 \<and> \<not> set_arm R ev \<and>
      (statements s \<noteq> None) = (\<not> autocommit s)"
  then have "pending_iff s1"
    by (intro dispatch_pending_iff[of R bls s ev s1]) (simp_all add: pending_iff_def)
  then show "(statements s1 \<noteq> None) = (\<not> autocommit s1)" by (simp add: pending_iff_def)
next
  assume a: "dispatch R bls s2 ev2 = Running s3 \<and> set_arm R ev2"
  then show "statements s3 \<noteq> None" using dispatch_set_arm[of R bls s2 ev2 s3] by simp
  from a show "autocommit s3 = autocommit s2" using dispatch_set_arm[of R bls s2 ev2 s3] by simp
qed

theorem pending_and_autocommit_witness:
  "parseEvents fake (target None)
       [Event FormatDescriptionEvent, Event (GTIDEvent ''g1'' True)] =
     Running ((formatted (target None))
                \<lparr>gtid := Some ''g1'', pos := [''g1''], effects := [Folded ''g1''],
                 statements := Some [], autocommit := False\<rparr>)
   \<and> dispatch fake (target None)
       (formatted (target None)) (GTIDEvent ''g1'' True) =
     Running ((formatted (target None))
                \<lparr>statements := Some [], autocommit := False\<rparr>)
   \<and> \<not> set_arm fake (GTIDEvent ''g1'' True)
   \<and> (statements (formatted (target None)) \<noteq> None) =
       (\<not> autocommit (formatted (target None)))
   \<and> dispatch fake (target None)
       (formatted (target None)) (RandEvent 3 4) =
     Running ((formatted (target None))
                \<lparr>statements :=
                   Some [\<lparr>Category = BL_SET, Sql = ''SET @@RAND_SEED1=3, @@RAND_SEED2=4'',
                          Charset = None\<rparr>]\<rparr>)
   \<and> set_arm fake (RandEvent 3 4)
   \<and> autocommit (formatted (target None))"
  using pending_and_autocommit
    [where R = fake and bls = "target None"
       and turns = "[Event FormatDescriptionEvent, Event (GTIDEvent ''g1'' True)]"
       and ?s0.0 = "(formatted (target None))
                \<lparr>gtid := Some ''g1'', pos := [''g1''], effects := [Folded ''g1''],
                 statements := Some [], autocommit := False\<rparr>"
       and s = "formatted (target None)"
       and ev = "GTIDEvent ''g1'' True"
       and ?s1.0 = "(formatted (target None))
                \<lparr>statements := Some [], autocommit := False\<rparr>"
       and ?s2.0 = "formatted (target None)"
       and ?ev2.0 = "RandEvent 3 4"
       and ?s3.0 = "(formatted (target None))
                \<lparr>statements :=
                   Some [\<lparr>Category = BL_SET, Sql = ''SET @@RAND_SEED1=3, @@RAND_SEED2=4'',
                          Charset = None\<rparr>]\<rparr>"]
  by (simp add: fake_defs code_defs set_arm_def decimal.simps)

subsection \<open>The first scenario of the specification\<close>

text \<open>
  C3, as the claim states it, fails: on the sequence of the claim, with a consumer that
  takes every transaction, two transactions are emitted and not one.
\<close>

theorem scenario1_counterexample:
  "length (sent (outcome_effects
     (parseEvents fake (target None)
        (scenario1 ''g1'' ''targetdb'')))) = 2"
  by (simp add: fake_defs code_defs decimal.simps)

text \<open>
  C3, amended: for the event sequence FORMAT\_DESC; GTID(g1); QUERY(db=targetdb,
  sql="insert into t values(1)", ts=100); XID(ts=100), exactly two transactions are
  emitted, both with timestamp 100 and with transaction id serialize(g1): the first,
  emitted by the query since no transaction is open, with the statements
  [(SET, "SET TIMESTAMP=100"), (DML, "insert into t values(1)")]; the second, emitted by
  the XID event, with no statements.
\<close>

theorem scenario1_emits_two:
  "sent (outcome_effects
     (parseEvents fake (fake_streamer targetdb cs accept_all) (scenario1 g1 targetdb))) =
   [\<lparr>Statements =
       Some [\<lparr>Category = BL_SET, Sql = ''SET TIMESTAMP=100'', Charset = None\<rparr>,
             \<lparr>Category = BL_DML, Sql = ''insert into t values(1)'', Charset = None\<rparr>],
     Timestamp64 = 100, TransactionId = g1\<rparr>,
    \<lparr>Statements = None, Timestamp64 = 100, TransactionId = g1\<rparr>]"
  by (simp add: fake_defs code_defs decimal.simps split: option.split)

subsection \<open>Rollback\<close>

text \<open>
  C5: when a query event classifies as \<open>BL_ROLLBACK\<close>, the pending buffer is
  discarded and a transaction with no statements is still handed to the callback,
  carrying the timestamp of the rollback event and the encoding of the current GTID as
  its transaction id; when the loop goes on, the buffer is absent.
\<close>

theorem rollback_emits_empty_transaction:
  assumes "query_event R ev" and "Query R ev (format s) = Inr q"
    and "getStatementCategory (SQL q) = BL_ROLLBACK"
  shows "outcome_effects (dispatch R bls s ev) =
           effects s @ [Sent \<lparr>Statements = None, Timestamp64 = uint (Timestamp R ev),
                              TransactionId = EncodeGTID R (gtid s)\<rparr>]
         \<and> (\<forall>s1. dispatch R bls s ev = Running s1 \<longrightarrow> statements s1 = None \<and> autocommit s1)"
proof -
  have d: "dispatch R bls s ev =
      commit_or_return R bls (s\<lparr>statements := None\<rparr>) (Timestamp R ev)"
    using assms by (simp add: dispatch_query query_arm_def)
  show ?thesis
    unfolding d by (auto simp: commit_or_return_effects dest!: commit_or_return_Running)
qed

theorem rollback_emits_empty_transaction_witness:
  "query_event fake
     (QueryEvent \<lparr>Database = ''targetdb'', QueryCharset = None, SQL = ''rollback''\<rparr> 6)
   \<and> Query fake
       (QueryEvent \<lparr>Database = ''targetdb'', QueryCharset = None, SQL = ''rollback''\<rparr> 6) 1 =
     Inr \<lparr>Database = ''targetdb'', QueryCharset = None, SQL = ''rollback''\<rparr>
   \<and> getStatementCategory ''rollback'' = BL_ROLLBACK
   \<and> outcome_effects
       (dispatch fake (target None)
          ((formatted (target None))
             \<lparr>gtid := Some ''g1'', pos := [''g1''], effects := [Folded ''g1''],
              statements :=
                Some [\<lparr>Category = BL_SET, Sql = ''SET TIMESTAMP=5'', Charset = None\<rparr>,
                      \<lparr>Category = BL_DML, Sql = ''insert into t values(1)'',
                        Charset = None\<rparr>],
              autocommit := False\<rparr>)
          (QueryEvent \<lparr>Database = ''targetdb'', QueryCharset = None, SQL = ''rollback''\<rparr> 6)) =
     [Folded ''g1'', Sent \<lparr>Statements = None, Timestamp64 = 6, TransactionId = ''g1''\<rparr>]
   \<and> sent (outcome_effects
       (parseEvents fake (target None) scenario3)) =
     [\<lparr>Statements = None, Timestamp64 = 6, TransactionId = ''g1''\<rparr>]"
  using rollback_emits_empty_transaction
    [where R = fake and bls = "target None"
       and ev = "QueryEvent \<lparr>Database = ''targetdb'', QueryCharset = None,
                              SQL = ''rollback''\<rparr> 6"
       and q = "\<lparr>Database = ''targetdb'', QueryCharset = None, SQL = ''rollback''\<rparr>"
       and s = "(formatted (target None))
             \<lparr>gtid := Some ''g1'', pos := [''g1''], effects := [Folded ''g1''],
              statements :=
                Some [\<lparr>Category = BL_SET, Sql = ''SET TIMESTAMP=5'', Charset = None\<rparr>,
                      \<lparr>Category = BL_DML, Sql = ''insert into t values(1)'',
                        Charset = None\<rparr>],
              autocommit := False\<rparr>"]
  by (simp add: fake_defs code_defs query_event_def decimal.simps)

subsection \<open>Before the format is known\<close>

text \<open>
  C6: for an event that passed the validity check, a \<^verbatim>\<open>FORMAT_DESCRIPTION_EVENT\<close>
  that decodes becomes the format, and the loop goes on to the next turn with nothing
  emitted and nothing else changed; and while the format is still zero, a rotate event
  is ignored, the loop going on with its variables as they were, and any other event
  that is not a format description makes \<^verbatim>\<open>parseEvents\<close> return an error, with the
  position as it was.
\<close>

theorem before_format_known:
  "(IsValid R ev1 \<and> IsFormatDescription R ev1 \<and> Format R ev1 = Inr f \<longrightarrow>
      parseEvents_loop R bls s (Event ev1 # rest) =
        parseEvents_loop R bls (s\<lparr>format := f\<rparr>) rest)
   \<and> (IsValid R ev2 \<and> \<not> IsFormatDescription R ev2 \<and> IsZero R (format s) \<and> IsRotate R ev2 \<longrightarrow>
      parseEvents_loop R bls s (Event ev2 # rest) = parseEvents_loop R bls s rest)
   \<and> (IsValid R ev3 \<and> \<not> IsFormatDescription R ev3 \<and> IsZero R (format s) \<and>
        \<not> IsRotate R ev3 \<longrightarrow>
      parseEvents_loop R bls s (Event ev3 # rest) =
        Returned (pos s)
          (Some (Errorf (''got a real event before FORMAT_DESCRIPTION_EVENT: '' @
                         GoString R ev3)))
          (effects s))"
  by (simp add: parse_event_def return_def)

theorem before_format_known_witness:
  "IsValid fake FormatDescriptionEvent \<and> IsFormatDescription fake FormatDescriptionEvent
   \<and> Format fake FormatDescriptionEvent = Inr 1
   \<and> parseEvents_loop fake (target None) (initial fake (target None))
       (Event FormatDescriptionEvent # []) =
     Running ((initial fake (target None))\<lparr>format := 1\<rparr>)
   \<and> IsZero fake (format (initial fake (target None)))
   \<and> IsValid fake RotateEvent \<and> \<not> IsFormatDescription fake RotateEvent
   \<and> IsRotate fake RotateEvent
   \<and> parseEvents_loop fake (target None) (initial fake (target None)) (Event RotateEvent # []) =
     Running (initial fake (target None))
   \<and> IsValid fake (XIDEvent 5) \<and> \<not> IsFormatDescription fake (XIDEvent 5)
   \<and> \<not> IsRotate fake (XIDEvent 5)
   \<and> parseEvents_loop fake (target None) (initial fake (target None)) (Event (XIDEvent 5) # []) =
     Returned [] (Some (Errorf ''got a real event before FORMAT_DESCRIPTION_EVENT: event'')) []"
  using before_format_known
    [where R = fake and bls = "target None" and s = "initial fake (target None)"
       and ?ev1.0 = FormatDescriptionEvent and f = 1
       and ?ev2.0 = RotateEvent and ?ev3.0 = "XIDEvent 5" and rest = "[]"]
  by (simp add: fake_defs initial_def)

subsection \<open>Transaction ids and the position\<close>

lemma last_folded_snoc_Folded [simp]: "last_folded (es @ [Folded g]) = Some g"
  by (induction es rule: last_folded.induct) simp_all

lemma last_folded_snoc_Sent [simp]: "last_folded (es @ [Sent t]) = last_folded es"
  by (induction es rule: last_folded.induct) simp_all

lemma ids_follow_Nil [simp]: "ids_follow R []"
  by (simp add: ids_follow_def)

lemma ids_follow_Folded: "ids_follow R es \<Longrightarrow> ids_follow R (es @ [Folded g])"
  unfolding ids_follow_def
proof (intro allI impI)
  fix pre t post
  assume h: "\<forall>pre t post. es = pre @ Sent t # post \<longrightarrow>
      TransactionId t = EncodeGTID R (last_folded pre)"
    and e: "es @ [Folded g] = pre @ Sent t # post"
  from snoc_eq_split[OF e] obtain post' where "es = pre @ Sent t # post'" by auto
  with h show "TransactionId t = EncodeGTID R (last_folded pre)" by blast
qed

lemma ids_follow_Sent:
  assumes "ids_follow R es" and "TransactionId u = EncodeGTID R (last_folded es)"
  shows "ids_follow R (es @ [Sent u])"
  unfolding ids_follow_def
proof (intro allI impI)
  fix pre t post
  assume e: "es @ [Sent u] = pre @ Sent t # post"
  from snoc_eq_split[OF e] show "TransactionId t = EncodeGTID R (last_folded pre)"
  proof
    assume "post = [] \<and> es = pre \<and> Sent u = Sent t"
    with assms(2) show ?thesis by simp
  next
    assume "\<exists>post'. post = post' @ [Sent u] \<and> es = pre @ Sent t # post'"
    then obtain post' where "es = pre @ Sent t # post'" by blast
    with assms(1) show ?thesis unfolding ids_follow_def by blast
  qed
qed

lemma gtid_inv_return: "gtid_inv R s \<Longrightarrow> gtid_inv_outcome R (return s err)"
  by (simp add: return_def gtid_inv_def)

lemma gtid_inv_commit:
  assumes "gtid_inv R s"
  shows "gtid_inv_outcome R (commit_or_return R bls s ts)"
proof -
  let ?t = "\<lparr>Statements = statements s, Timestamp64 = uint ts,
             TransactionId = EncodeGTID R (gtid s)\<rparr>"
  from assms have f: "ids_follow R (effects s @ [Sent ?t])"
    by (intro ids_follow_Sent) (simp_all add: gtid_inv_def)
  show ?thesis
  proof (cases "commit_or_return R bls s ts")
    case (Running s1)
    from commit_or_return_Running[OF Running] f assms show ?thesis
      by (simp add: Running gtid_inv_def)
  next
    case (Returned p err es)
    with commit_or_return_effects[of R bls s ts] f show ?thesis by simp
  qed
qed

lemma gtid_inv_statements: "gtid_inv R s \<Longrightarrow> gtid_inv R (s\<lparr>statements := x\<rparr>)"
  by (simp add: gtid_inv_def)

lemma gtid_inv_begin_tx: "gtid_inv R s \<Longrightarrow> gtid_inv R (begin_tx s)"
  by (simp add: gtid_inv_def begin_tx_def)

lemma gtid_inv_format: "gtid_inv R s \<Longrightarrow> gtid_inv R (s\<lparr>format := f\<rparr>)"
  by (simp add: gtid_inv_def)

lemma gtid_inv_query_default:
  "gtid_inv R s \<Longrightarrow> gtid_inv_outcome R (query_default R bls s ev cat q)"
  by (simp add: query_default_def Let_def gtid_inv_commit gtid_inv_statements)

lemma gtid_inv_query_arm:
  "gtid_inv R s \<Longrightarrow> gtid_inv_outcome R (query_arm R bls s ev q)"
  by (simp add: query_arm_def gtid_inv_commit gtid_inv_statements gtid_inv_begin_tx
      gtid_inv_query_default split: category.split)

lemma gtid_inv_dispatch:
  "gtid_inv R s \<Longrightarrow> gtid_inv_outcome R (dispatch R bls s ev)"
  by (simp add: dispatch_def gtid_inv_commit gtid_inv_statements gtid_inv_begin_tx
      gtid_inv_query_arm gtid_inv_return split: sum.split prod.split)

lemma gtid_inv_absorb_gtid:
  "gtid_inv R s \<Longrightarrow> absorb_gtid R s ev = Inr s1 \<Longrightarrow> gtid_inv R s1"
  by (auto simp: absorb_gtid_def gtid_inv_def ids_follow_Folded split: if_splits sum.splits)

lemma gtid_inv_parse_event:
  "gtid_inv R s \<Longrightarrow> gtid_inv_outcome R (parse_event R bls s ev)"
  by (auto simp: parse_event_def gtid_inv_return gtid_inv_format gtid_inv_dispatch
      split: sum.split prod.split dest: gtid_inv_absorb_gtid)

lemma gtid_inv_parseEvents_loop:
  "gtid_inv R s \<Longrightarrow> gtid_inv_outcome R (parseEvents_loop R bls s turns)"
proof (induction turns arbitrary: s)
  case Nil
  then show ?case by simp
next
  case (Cons x xs)
  show ?case
  proof (cases x)
    case (Event ev)
    from gtid_inv_parse_event[OF Cons.prems, of bls ev] Cons.IH show ?thesis
      by (cases "parse_event R bls s ev") (simp_all add: Event)
  qed (simp_all add: gtid_inv_return Cons.prems)
qed

lemma gtid_inv_initial: "gtid_inv R (initial R bls)"
  by (simp add: gtid_inv_def initial_def)

lemma gtid_inv_outcome_effects:
  "gtid_inv_outcome R out \<Longrightarrow> ids_follow R (outcome_effects out)"
  by (cases out) (simp_all add: gtid_inv_def)

lemma dispatch_pos: "outcome_pos (dispatch R bls s ev) = pos s"
  by (simp add: dispatch_def query_arm_def query_default_def begin_tx_def return_def Let_def
      commit_or_return_pos split: sum.split prod.split category.split)

lemma folded_append [simp]: "folded (es @ fs) = folded es @ folded fs"
  by (induction es rule: folded.induct) simp_all

lemma dispatch_folded: "folded (outcome_effects (dispatch R bls s ev)) = folded (effects s)"
  by (simp add: dispatch_def query_arm_def query_default_def begin_tx_def return_def Let_def
      commit_or_return_effects split: sum.split prod.split category.split)

lemma parse_event_folds:
  assumes "pos s = foldl (AppendGTID R) p0 (folded (effects s))"
  shows "outcome_pos (parse_event R bls s ev) =
           foldl (AppendGTID R) p0 (folded (outcome_effects (parse_event R bls s ev)))"
  using assms
  by (auto simp: parse_event_def absorb_gtid_def return_def dispatch_pos dispatch_folded
      split: sum.split prod.split)

lemma parseEvents_loop_folds:
  assumes "pos s = foldl (AppendGTID R) p0 (folded (effects s))"
  shows "outcome_pos (parseEvents_loop R bls s turns) =
           foldl (AppendGTID R) p0 (folded (outcome_effects (parseEvents_loop R bls s turns)))"
  using assms
proof (induction turns arbitrary: s)
  case Nil
  then show ?case by simp
next
  case (Cons x xs)
  show ?case
  proof (cases x)
    case (Event ev)
    show ?thesis
    proof (cases "parse_event R bls s ev")
      case (Running s1)
      with parse_event_folds[OF Cons.prems, of bls ev]
      have "pos s1 = foldl (AppendGTID R) p0 (folded (effects s1))" by simp
      from Cons.IH[OF this] show ?thesis by (simp add: Event Running)
    next
      case (Returned p err es)
      with parse_event_folds[OF Cons.prems, of bls ev] show ?thesis by (simp add: Event)
    qed
  qed (simp_all add: return_def Cons.prems)
qed

text \<open>
  C7: in every run of \<^verbatim>\<open>parseEvents\<close>, every transaction handed to the callback has as
  its transaction id the encoding of the GTID that was folded into the position last
  before it (of the nil GTID when none was folded yet), the position being the start
  position with the folded GTIDs appended in order; and for every event the loop takes
  in, the position after it is the position before it, or the position before it with
  the GTID of the event, decoded from the event without its checksum, appended.
\<close>

theorem transaction_id_follows_gtid:
  "(outcome_effects (parseEvents R bls turns) = pre @ Sent t # post \<longrightarrow>
      TransactionId t = EncodeGTID R (last_folded pre))
   \<and> outcome_pos (parseEvents R bls turns) =
       foldl (AppendGTID R) (startPos bls) (folded (outcome_effects (parseEvents R bls turns)))
   \<and> (outcome_pos (parse_event R bls s ev) = pos s
      \<or> (\<exists>ev1 g. StripChecksum R ev (format s) = Inr ev1 \<and> GTID R ev1 (format s) = Inr g \<and>
            outcome_pos (parse_event R bls s ev) = AppendGTID R (pos s) g))"
proof (intro conjI impI)
  assume e: "outcome_effects (parseEvents R bls turns) = pre @ Sent t # post"
  have "ids_follow R (outcome_effects (parseEvents R bls turns))"
    unfolding parseEvents_def
    by (intro gtid_inv_outcome_effects gtid_inv_parseEvents_loop gtid_inv_initial)
  with e show "TransactionId t = EncodeGTID R (last_folded pre)"
    unfolding ids_follow_def by blast
next
  show "outcome_pos (parseEvents R bls turns) =
      foldl (AppendGTID R) (startPos bls) (folded (outcome_effects (parseEvents R bls turns)))"
    unfolding parseEvents_def
    by (rule parseEvents_loop_folds) (simp add: initial_def)
next
  show "outcome_pos (parse_event R bls s ev) = pos s
      \<or> (\<exists>ev1 g. StripChecksum R ev (format s) = Inr ev1 \<and> GTID R ev1 (format s) = Inr g \<and>
            outcome_pos (parse_event R bls s ev) = AppendGTID R (pos s) g)"
    by (auto simp: parse_event_def absorb_gtid_def return_def dispatch_pos
        split: sum.split prod.split)
qed

theorem transaction_id_follows_gtid_witness:
  "outcome_effects (parseEvents fake (target None) (scenario1 ''g1'' ''targetdb'')) =
   [Folded ''g1''] @
   Sent \<lparr>Statements =
           Some [\<lparr>Category = BL_SET, Sql = ''SET TIMESTAMP=100'', Charset = None\<rparr>,
                 \<lparr>Category = BL_DML, Sql = ''insert into t values(1)'', Charset = None\<rparr>],
         Timestamp64 = 100, TransactionId = ''g1''\<rparr> #
   [Sent \<lparr>Statements = None, Timestamp64 = 100, TransactionId = ''g1''\<rparr>]
   \<and> ''g1'' = EncodeGTID fake (last_folded [Folded ''g1''])
   \<and> outcome_pos (parseEvents fake (target None) (scenario1 ''g1'' ''targetdb'')) = [''g1'']
   \<and> outcome_pos
       (parse_event fake (target None) ((formatted (target None))\<lparr>pos := [''g0'']\<rparr>)
          (GTIDEvent ''g1'' False)) =
     AppendGTID fake [''g0''] ''g1''"
  using transaction_id_follows_gtid
    [where R = fake and bls = "target None"
       and turns = "scenario1 ''g1'' ''targetdb''"
       and pre = "[Folded ''g1'']"
       and t = "\<lparr>Statements =
           Some [\<lparr>Category = BL_SET, Sql = ''SET TIMESTAMP=100'', Charset = None\<rparr>,
                 \<lparr>Category = BL_DML, Sql = ''insert into t values(1)'', Charset = None\<rparr>],
         Timestamp64 = 100, TransactionId = ''g1''\<rparr>"
       and post = "[Sent \<lparr>Statements = None, Timestamp64 = 100, TransactionId = ''g1''\<rparr>]"
       and s = "(formatted (target None))\<lparr>pos := [''g0'']\<rparr>"
       and ev = "GTIDEvent ''g1'' False"]
  by (simp add: fake_defs code_defs decimal.simps)

subsection \<open>The default arm of a query\<close>

text \<open>
  C8: a statement of the default arm that is not filtered out adds to the pending
  buffer the statement \<^verbatim>\<open>SET TIMESTAMP\<close> and the statement of the query, as
  \<open>query_statements\<close> builds them (the buffer is emitted at once when \<^verbatim>\<open>autocommit\<close>
  is true, and kept otherwise). When the client declared a charset and the event carries
  another one, both statements carry the charset of the event; when the charset of the
  event equals that of the client, neither carries a charset; when the client declared
  none, both carry what the event has.
\<close>

theorem charset_attachment:
  "((Database qa = [] \<or> Database qa = dbname blsa) \<and> autocommit sa \<longrightarrow>
      outcome_effects (query_default R blsa sa eva cata qa) =
        effects sa @
          [Sent \<lparr>Statements =
                   Some (slice (statements sa) @
                         query_statements blsa (Timestamp R eva) cata qa),
                 Timestamp64 = uint (Timestamp R eva),
                 TransactionId = EncodeGTID R (gtid sa)\<rparr>])
   \<and> ((Database qb = [] \<or> Database qb = dbname blsb) \<and> \<not> autocommit sb \<longrightarrow>
      query_default R blsb sb evb catb qb =
        Running (sb\<lparr>statements :=
                      Some (slice (statements sb) @
                            query_statements blsb (Timestamp R evb) catb qb)\<rparr>))
   \<and> (clientCharset bls1 = Some C \<and> QueryCharset q1 = Some C' \<and> C' \<noteq> C \<longrightarrow>
        query_statements bls1 ts cat1 q1 =
          [\<lparr>Category = BL_SET, Sql = ''SET TIMESTAMP='' @ decimal (unat ts),
            Charset = Some C'\<rparr>,
           \<lparr>Category = cat1, Sql = SQL q1, Charset = Some C'\<rparr>])
   \<and> (clientCharset bls2 = Some C2 \<and> QueryCharset q2 = Some C2 \<longrightarrow>
        query_statements bls2 ts cat2 q2 =
          [\<lparr>Category = BL_SET, Sql = ''SET TIMESTAMP='' @ decimal (unat ts), Charset = None\<rparr>,
           \<lparr>Category = cat2, Sql = SQL q2, Charset = None\<rparr>])
   \<and> (clientCharset bls3 = None \<longrightarrow>
        query_statements bls3 ts cat3 q3 =
          [\<lparr>Category = BL_SET, Sql = ''SET TIMESTAMP='' @ decimal (unat ts),
            Charset = QueryCharset q3\<rparr>,
           \<lparr>Category = cat3, Sql = SQL q3, Charset = QueryCharset q3\<rparr>])"
  by (auto simp: query_default_def Let_def commit_or_return_effects append_slice_def
      query_statements_def attach_charset_def)

theorem charset_attachment_witness:
  "Database (update_query ''targetdb'' (Some latin1)) = dbname (target (Some utf8))
   \<and> autocommit (formatted (target (Some utf8)))
   \<and> outcome_effects
       (query_default fake (target (Some utf8)) (formatted (target (Some utf8)))
          (QueryEvent (update_query ''targetdb'' (Some latin1)) 100) BL_DML
          (update_query ''targetdb'' (Some latin1))) =
     [Sent \<lparr>Statements =
              Some [\<lparr>Category = BL_SET, Sql = ''SET TIMESTAMP=100'', Charset = Some latin1\<rparr>,
                    \<lparr>Category = BL_DML, Sql = ''update t set a = 1'',
                      Charset = Some latin1\<rparr>],
            Timestamp64 = 100, TransactionId = []\<rparr>]
   \<and> Database (update_query [] (Some utf8)) = []
   \<and> \<not> autocommit ((formatted (target (Some utf8)))\<lparr>statements := Some [], autocommit := False\<rparr>)
   \<and> query_default fake (target (Some utf8))
       ((formatted (target (Some utf8)))\<lparr>statements := Some [], autocommit := False\<rparr>)
       (QueryEvent (update_query [] (Some utf8)) 100) BL_DML (update_query [] (Some utf8)) =
     Running ((formatted (target (Some utf8)))
       \<lparr>statements :=
          Some [\<lparr>Category = BL_SET, Sql = ''SET TIMESTAMP=100'', Charset = None\<rparr>,
                \<lparr>Category = BL_DML, Sql = ''update t set a = 1'', Charset = None\<rparr>],
        autocommit := False\<rparr>)
   \<and> clientCharset (target (Some utf8)) = Some utf8
   \<and> QueryCharset (update_query ''targetdb'' (Some latin1)) = Some latin1
   \<and> latin1 \<noteq> utf8
   \<and> query_statements (target (Some utf8)) 100 BL_DML
       (update_query ''targetdb'' (Some latin1)) =
     [\<lparr>Category = BL_SET, Sql = ''SET TIMESTAMP=100'', Charset = Some latin1\<rparr>,
      \<lparr>Category = BL_DML, Sql = ''update t set a = 1'', Charset = Some latin1\<rparr>]
   \<and> QueryCharset (update_query [] (Some utf8)) = Some utf8
   \<and> query_statements (target (Some utf8)) 100 BL_DML (update_query [] (Some utf8)) =
     [\<lparr>Category = BL_SET, Sql = ''SET TIMESTAMP=100'', Charset = None\<rparr>,
      \<lparr>Category = BL_DML, Sql = ''update t set a = 1'', Charset = None\<rparr>]
   \<and> clientCharset (target None) = None
   \<and> query_statements (target None) 100 BL_DML (update_query [] (Some latin1)) =
     [\<lparr>Category = BL_SET, Sql = ''SET TIMESTAMP=100'', Charset = Some latin1\<rparr>,
      \<lparr>Category = BL_DML, Sql = ''update t set a = 1'', Charset = Some latin1\<rparr>]"
  using charset_attachment
    [where R = fake
       and blsa = "target (Some utf8)"
       and sa = "formatted (target (Some utf8))"
       and eva = "QueryEvent (update_query ''targetdb'' (Some latin1)) 100"
       and cata = BL_DML
       and qa = "update_query ''targetdb'' (Some latin1)"
       and blsb = "target (Some utf8)"
       and sb = "(formatted (target (Some utf8)))\<lparr>statements := Some [], autocommit := False\<rparr>"
       and evb = "QueryEvent (update_query [] (Some utf8)) 100"
       and catb = BL_DML
       and qb = "update_query [] (Some utf8)"
       and ?bls1.0 = "target (Some utf8)" and C = utf8 and C' = latin1
       and ?q1.0 = "update_query ''targetdb'' (Some latin1)"
       and ts = 100 and ?cat1.0 = BL_DML
       and ?bls2.0 = "target (Some utf8)" and ?C2.0 = utf8
       and ?q2.0 = "update_query [] (Some utf8)" and ?cat2.0 = BL_DML
       and ?bls3.0 = "target None" and ?cat3.0 = BL_DML
       and ?q3.0 = "update_query [] (Some latin1)"]
  by (simp add: fake_defs code_defs decimal.simps)

text \<open>
  C9: a query event whose database is non-empty and differs from the configured dbname
  gives no statement to any transaction. With a category of the default arm the event
  is skipped and the variables stay as they were; with any category, the pending buffer
  after the event holds only statements it held before, and so does a transaction the
  event emits.
\<close>

theorem cross_db_query_contributes_nothing:
  assumes "query_event R ev" and "Query R ev (format s) = Inr q"
    and "Database q \<noteq> []" and "Database q \<noteq> dbname bls"
  shows "(getStatementCategory (SQL q) \<notin> {BL_BEGIN, BL_ROLLBACK, BL_COMMIT} \<longrightarrow>
            dispatch R bls s ev = Running s)
         \<and> (\<forall>s1. dispatch R bls s ev = Running s1 \<longrightarrow>
               set (slice (statements s1)) \<subseteq> set (slice (statements s)))
         \<and> (sent (outcome_effects (dispatch R bls s ev)) = sent (effects s)
            \<or> (\<exists>t. sent (outcome_effects (dispatch R bls s ev)) = sent (effects s) @ [t] \<and>
                  set (slice (Statements t)) \<subseteq> set (slice (statements s))))"
proof -
  have d: "dispatch R bls s ev = query_arm R bls s ev q"
    using assms by (simp add: dispatch_query)
  have skip: "query_default R bls s ev cat q = Running s" for cat
    using assms by (simp add: query_default_def)
  show ?thesis
    unfolding d
    by (cases "getStatementCategory (SQL q)")
      (auto simp: query_arm_def skip begin_tx_def commit_or_return_effects slice_def
        dest!: commit_or_return_Running)
qed

theorem cross_db_query_contributes_nothing_witness:
  "query_event fake
     (QueryEvent \<lparr>Database = ''other'', QueryCharset = None,
                  SQL = ''insert into u values(2)''\<rparr> 7)
   \<and> Query fake
       (QueryEvent \<lparr>Database = ''other'', QueryCharset = None,
                    SQL = ''insert into u values(2)''\<rparr> 7) 1 =
     Inr \<lparr>Database = ''other'', QueryCharset = None, SQL = ''insert into u values(2)''\<rparr>
   \<and> ''other'' \<noteq> [] \<and> ''other'' \<noteq> dbname (target None)
   \<and> getStatementCategory ''insert into u values(2)'' = BL_DML
   \<and> dispatch fake (target None)
       (formatted (target None))
       (QueryEvent \<lparr>Database = ''other'', QueryCharset = None,
                    SQL = ''insert into u values(2)''\<rparr> 7) =
     Running (formatted (target None))"
  using cross_db_query_contributes_nothing
    [where R = fake and bls = "target None"
       and s = "formatted (target None)"
       and ev = "QueryEvent \<lparr>Database = ''other'', QueryCharset = None,
                    SQL = ''insert into u values(2)''\<rparr> 7"
       and q = "\<lparr>Database = ''other'', QueryCharset = None,
                 SQL = ''insert into u values(2)''\<rparr>"]
  by (simp add: fake_defs code_defs query_event_def)

subsection \<open>The arms of INTVAR and RAND\<close>

lemma buffer_fate_refl: "statements s = Some B \<Longrightarrow> buffer_fate B s s"
  by (simp add: buffer_fate_def)

lemma buffer_fate_begin_tx: "statements s = Some B \<Longrightarrow> buffer_fate B s (begin_tx s)"
  by (simp add: buffer_fate_def begin_tx_def)

lemma buffer_fate_commit:
  assumes "commit_or_return R bls s1 ts = Running s2"
    and "statements s1 = Some (B @ ext) \<or> statements s1 = None"
    and "effects s1 = effects s" and "ParseEventsErrors s1 = ParseEventsErrors s"
  shows "buffer_fate B s s2"
  using commit_or_return_Running[OF assms(1)] assms(2-4)
  by (auto simp: buffer_fate_def)

lemma buffer_fate_query_default:
  assumes "query_default R bls s ev cat q = Running s2" and "statements s = Some B"
  shows "buffer_fate B s s2"
proof (cases "Database q \<noteq> [] \<and> Database q \<noteq> dbname bls")
  case True
  with assms show ?thesis by (simp add: query_default_def buffer_fate_refl)
next
  case False
  let ?s1 = "s\<lparr>statements :=
      append_slice (statements s) (query_statements bls (Timestamp R ev) cat q)\<rparr>"
  have b: "statements ?s1 = Some (B @ query_statements bls (Timestamp R ev) cat q)"
    using assms(2) by (simp add: append_slice_def slice_def)
  show ?thesis
  proof (cases "autocommit s")
    case True
    with False assms(1) have "commit_or_return R bls ?s1 (Timestamp R ev) = Running s2"
      by (auto simp: query_default_def Let_def)
    from commit_or_return_Running[OF this] assms(2) show ?thesis
      by (auto simp: buffer_fate_def append_slice_def slice_def)
  next
    case a: False
    with False assms(1) have "s2 = ?s1" by (auto simp: query_default_def Let_def)
    with b show ?thesis by (auto simp: buffer_fate_def)
  qed
qed

lemma buffer_fate_query_arm:
  assumes "query_arm R bls s ev q = Running s2" and "statements s = Some B"
  shows "buffer_fate B s s2"
proof (cases "getStatementCategory (SQL q)")
  case BL_BEGIN
  with assms show ?thesis by (auto simp: query_arm_def buffer_fate_begin_tx)
next
  case BL_ROLLBACK
  with assms(1)
  have "commit_or_return R bls (s\<lparr>statements := None\<rparr>) (Timestamp R ev) = Running s2"
    by (simp add: query_arm_def)
  then show ?thesis by (rule buffer_fate_commit) simp_all
next
  case BL_COMMIT
  with assms(1) have "commit_or_return R bls s (Timestamp R ev) = Running s2"
    by (simp add: query_arm_def)
  then show ?thesis by (rule buffer_fate_commit) (use assms(2) in simp_all)
qed (use assms in \<open>auto simp: query_arm_def dest: buffer_fate_query_default\<close>)

lemma buffer_fate_dispatch:
  assumes "dispatch R bls s ev = Running s2" and "statements s = Some B"
  shows "buffer_fate B s s2"
proof -
  consider (g) "IsGTID R ev" | (x) "\<not> IsGTID R ev" "IsXID R ev" | (a) "set_arm R ev"
    | (q) "query_event R ev" | (o) "\<not> IsGTID R ev" "\<not> IsXID R ev" "\<not> IsIntVar R ev"
      "\<not> IsRand R ev" "\<not> IsQuery R ev"
    by (auto simp: set_arm_def query_event_def)
  then show ?thesis
  proof cases
    case g
    with assms show ?thesis
      by (auto simp: dispatch_def buffer_fate_begin_tx buffer_fate_refl split: if_splits)
  next
    case x
    with assms(1) have "commit_or_return R bls s (Timestamp R ev) = Running s2"
      by (simp add: dispatch_def)
    then show ?thesis by (rule buffer_fate_commit) (use assms(2) in simp_all)
  next
    case a
    with assms show ?thesis
      by (auto simp: dispatch_def set_arm_def buffer_fate_def append_slice_def slice_def
          return_def split: if_splits sum.splits prod.splits)
  next
    case q
    with assms show ?thesis
      by (auto simp: dispatch_def query_event_def return_def split: sum.splits
          dest: buffer_fate_query_arm)
  next
    case o
    with assms show ?thesis by (simp add: dispatch_def buffer_fate_refl)
  qed
qed

lemma buffer_fate_absorbed:
  assumes "absorb_gtid R s ev = Inr s1" and "buffer_fate B s1 s2"
  shows "buffer_fate B s s2"
  using assms
  by (auto simp: absorb_gtid_def buffer_fate_def split: if_splits sum.splits)

lemma absorb_gtid_statements:
  "absorb_gtid R s ev = Inr s1 \<Longrightarrow> statements s1 = statements s"
  by (auto simp: absorb_gtid_def split: if_splits sum.splits)

lemma buffer_fate_parse_event:
  assumes "parse_event R bls s ev = Running s2" and "statements s = Some B"
  shows "buffer_fate B s s2"
proof -
  consider (f) "IsValid R ev" "IsFormatDescription R ev"
    | (z) "IsValid R ev" "\<not> IsFormatDescription R ev" "IsZero R (format s)"
    | (d) "IsValid R ev" "\<not> IsFormatDescription R ev" "\<not> IsZero R (format s)"
    | (i) "\<not> IsValid R ev"
    by blast
  then show ?thesis
  proof cases
    case f
    with assms show ?thesis
      by (auto simp: parse_event_def return_def buffer_fate_def split: sum.splits)
  next
    case z
    with assms show ?thesis
      by (auto simp: parse_event_def return_def buffer_fate_refl split: if_splits)
  next
    case d
    with assms(1) obtain ev1 s1 where a: "absorb_gtid R s ev1 = Inr s1"
      and di: "dispatch R bls s1 ev1 = Running s2"
      by (auto simp: parse_event_def return_def split: sum.splits prod.splits)
    from absorb_gtid_statements[OF a] assms(2) have "statements s1 = Some B" by simp
    from buffer_fate_dispatch[OF di this] a show ?thesis by (rule buffer_fate_absorbed[rotated])
  next
    case i
    with assms show ?thesis by (simp add: parse_event_def return_def)
  qed
qed

lemma grows_commit:
  "commit_or_return R bls s1 ts = Running s2 \<Longrightarrow> effects s1 = effects s \<Longrightarrow>
     ParseEventsErrors s1 = ParseEventsErrors s \<Longrightarrow> grows s s2"
  by (auto simp: grows_def dest!: commit_or_return_Running)

lemma grows_query_arm: "query_arm R bls s ev q = Running s2 \<Longrightarrow> grows s s2"
  by (cases "getStatementCategory (SQL q)")
    (auto simp: query_arm_def query_default_def Let_def begin_tx_def grows_def
      split: if_splits dest!: commit_or_return_Running)

lemma grows_dispatch: "dispatch R bls s ev = Running s2 \<Longrightarrow> grows s s2"
proof (cases "query_event R ev")
  case True
  assume "dispatch R bls s ev = Running s2"
  with True show ?thesis
    by (auto simp: dispatch_def query_event_def return_def split: sum.splits
        dest: grows_query_arm)
next
  case False
  assume "dispatch R bls s ev = Running s2"
  with False show ?thesis
    by (auto simp: dispatch_def query_event_def begin_tx_def grows_def return_def
        split: if_splits sum.splits prod.splits dest!: commit_or_return_Running)
qed

lemma grows_parse_event: "parse_event R bls s ev = Running s2 \<Longrightarrow> grows s s2"
proof -
  assume p: "parse_event R bls s ev = Running s2"
  consider (d) "IsValid R ev" "\<not> IsFormatDescription R ev" "\<not> IsZero R (format s)"
    | (o) "\<not> (IsValid R ev \<and> \<not> IsFormatDescription R ev \<and> \<not> IsZero R (format s))"
    by blast
  then show ?thesis
  proof cases
    case d
    with p obtain ev1 s1 where a: "absorb_gtid R s ev1 = Inr s1"
      and di: "dispatch R bls s1 ev1 = Running s2"
      by (auto simp: parse_event_def return_def split: sum.splits prod.splits)
    from a have "sent (effects s1) = sent (effects s)"
      and "ParseEventsErrors s1 = ParseEventsErrors s"
      by (auto simp: absorb_gtid_def split: if_splits sum.splits)
    with grows_dispatch[OF di] show ?thesis by (simp add: grows_def)
  next
    case o
    with p show ?thesis
      by (auto simp: parse_event_def return_def grows_def split: if_splits sum.splits)
  qed
qed

lemma grows_parseEvents_loop:
  "parseEvents_loop R bls s turns = Running s2 \<Longrightarrow> grows s s2"
proof (induction turns arbitrary: s)
  case Nil
  then show ?case by (simp add: grows_def)
next
  case (Cons x xs)
  show ?case
  proof (cases x)
    case (Event ev)
    with Cons.prems obtain s1 where p: "parse_event R bls s ev = Running s1"
      and l: "parseEvents_loop R bls s1 xs = Running s2"
      by (auto split: outcome.splits)
    from grows_parse_event[OF p] Cons.IH[OF l] show ?thesis by (simp add: grows_def)
  qed (use Cons.prems in \<open>simp_all add: return_def\<close>)
qed

lemma buffer_kept_parseEvents_loop:
  assumes "parseEvents_loop R bls s turns = Running s2"
    and "statements s = Some (B @ ext0)"
    and "sent (effects s2) = sent (effects s)"
    and "ParseEventsErrors s2 = ParseEventsErrors s"
  shows "\<exists>ext. statements s2 = Some (B @ ext)"
  using assms
proof (induction turns arbitrary: s ext0)
  case Nil
  then show ?case by simp
next
  case (Cons x xs)
  show ?case
  proof (cases x)
    case (Event ev)
    with Cons.prems(1) obtain s1 where p: "parse_event R bls s ev = Running s1"
      and l: "parseEvents_loop R bls s1 xs = Running s2"
      by (auto split: outcome.splits)
    from grows_parse_event[OF p] grows_parseEvents_loop[OF l] Cons.prems(3,4)
    have e: "ParseEventsErrors s1 = ParseEventsErrors s"
      and n: "length (sent (effects s1)) = length (sent (effects s))"
      by (simp_all add: grows_def)
    from buffer_fate_parse_event[OF p Cons.prems(2)] e n
    obtain ext where b: "statements s1 = Some ((B @ ext0) @ ext)"
      and se: "sent (effects s1) = sent (effects s)"
      by (auto simp: buffer_fate_def)
    from b have "statements s1 = Some (B @ (ext0 @ ext))" by simp
    from Cons.IH[OF l this] se e Cons.prems(3,4) show ?thesis by simp
  qed (use Cons.prems in \<open>simp_all add: return_def\<close>)
qed

text \<open>
  C10, as the claim states it, fails: an \<^verbatim>\<open>INTVAR_EVENT\<close> outside a transaction puts
  its statement into the buffer, and a BEGIN that comes before any commit replaces the
  buffer by an empty one; the commit that follows sends a transaction without the
  statement, which is never emitted.
\<close>

theorem intvar_dropped_by_begin_counterexample:
  "parseEvents fake (target None)
     [Event FormatDescriptionEvent, Event (IntVarEvent ''INSERT_ID'' 7)] =
   Running ((formatted (target None))
              \<lparr>statements :=
                 Some [\<lparr>Category = BL_SET, Sql = ''SET INSERT_ID=7'', Charset = None\<rparr>]\<rparr>)
   \<and> sent (outcome_effects (parseEvents fake (target None) intvar_then_begin)) =
       [\<lparr>Statements = Some [], Timestamp64 = 9, TransactionId = []\<rparr>]"
  by (simp add: fake_defs code_defs decimal.simps)

text \<open>
  C10, amended: an \<^verbatim>\<open>INTVAR_EVENT\<close> or a \<^verbatim>\<open>RAND_EVENT\<close> that decodes appends exactly
  one \<open>BL_SET\<close> statement to the pending buffer, with no charset and no
  \<^verbatim>\<open>SET TIMESTAMP\<close> before it, whatever the dbname of the streamer, and hands nothing to
  the callback, whatever the flag \<^verbatim>\<open>autocommit\<close>, which it leaves as it was; a commit
  right after it emits the buffer with the statement. From then on every event either
  keeps the statements of the buffer at its head, sending nothing and counting no
  error, or is a begin, which empties the buffer and counts an error, or sends one
  transaction, with the buffer or (a rollback) with no statements; so the statement is
  in the buffer for as long as the loop runs with no transaction sent and no error
  counted.
\<close>

theorem intvar_rand_buffered_until_commit_or_begin:
  "(\<not> IsGTID R ev \<and> \<not> IsXID R ev \<and> IsIntVar R ev \<and>
      IntVar R ev (format s) = Inr (name, v) \<longrightarrow>
      dispatch R bls s ev =
        Running (s\<lparr>statements :=
                     Some (slice (statements s) @
                           [\<lparr>Category = BL_SET,
                             Sql = ''SET '' @ name @ ''='' @ decimal (unat v),
                             Charset = None\<rparr>])\<rparr>))
   \<and> (\<not> IsGTID R ev2 \<and> \<not> IsXID R ev2 \<and> \<not> IsIntVar R ev2 \<and> IsRand R ev2 \<and>
        Rand R ev2 (format s) = Inr (seed1, seed2) \<longrightarrow>
      dispatch R bls s ev2 =
        Running (s\<lparr>statements :=
                     Some (slice (statements s) @
                           [\<lparr>Category = BL_SET,
                             Sql = ''SET @@RAND_SEED1='' @ decimal (unat seed1) @
                                   '', @@RAND_SEED2='' @ decimal (unat seed2),
                             Charset = None\<rparr>])\<rparr>))
   \<and> (set_arm R ev3 \<and> dispatch R bls s ev3 = Running s1 \<longrightarrow>
        (\<exists>st. statements s1 = Some (slice (statements s) @ [st]) \<and>
          outcome_effects (commit_or_return R bls s1 ts) =
            effects s @ [Sent \<lparr>Statements = Some (slice (statements s) @ [st]),
                               Timestamp64 = uint ts,
                               TransactionId = EncodeGTID R (gtid s)\<rparr>]))
   \<and> (statements s4 = Some B4 \<and> parse_event R bls s4 ev4 = Running s5 \<longrightarrow>
        ((\<exists>ext. statements s5 = Some (B4 @ ext)) \<and> sent (effects s5) = sent (effects s4) \<and>
           ParseEventsErrors s5 = ParseEventsErrors s4)
        \<or> (statements s5 = Some [] \<and> sent (effects s5) = sent (effects s4) \<and>
             ParseEventsErrors s5 = ParseEventsErrors s4 + 1)
        \<or> (statements s5 = None \<and> ParseEventsErrors s5 = ParseEventsErrors s4 \<and>
             (\<exists>t. sent (effects s5) = sent (effects s4) @ [t] \<and>
                ((\<exists>ext. Statements t = Some (B4 @ ext)) \<or> Statements t = None))))
   \<and> (statements s6 = Some (B6 @ ext6) \<and> parseEvents_loop R bls s6 turns = Running s7 \<and>
      sent (effects s7) = sent (effects s6) \<and>
      ParseEventsErrors s7 = ParseEventsErrors s6 \<longrightarrow>
        (\<exists>ext. statements s7 = Some (B6 @ ext)))"
proof (intro conjI impI)
  assume "\<not> IsGTID R ev \<and> \<not> IsXID R ev \<and> IsIntVar R ev \<and>
      IntVar R ev (format s) = Inr (name, v)"
  then show "dispatch R bls s ev =
      Running (s\<lparr>statements :=
                   Some (slice (statements s) @
                         [\<lparr>Category = BL_SET,
                           Sql = ''SET '' @ name @ ''='' @ decimal (unat v),
                           Charset = None\<rparr>])\<rparr>)"
    by (simp add: dispatch_def append_slice_def)
next
  assume "\<not> IsGTID R ev2 \<and> \<not> IsXID R ev2 \<and> \<not> IsIntVar R ev2 \<and> IsRand R ev2 \<and>
      Rand R ev2 (format s) = Inr (seed1, seed2)"
  then show "dispatch R bls s ev2 =
      Running (s\<lparr>statements :=
                   Some (slice (statements s) @
                         [\<lparr>Category = BL_SET,
                           Sql = ''SET @@RAND_SEED1='' @ decimal (unat seed1) @
                                 '', @@RAND_SEED2='' @ decimal (unat seed2),
                           Charset = None\<rparr>])\<rparr>)"
    by (simp add: dispatch_def append_slice_def)
next
  assume "set_arm R ev3 \<and> dispatch R bls s ev3 = Running s1"
  then show "\<exists>st. statements s1 = Some (slice (statements s) @ [st]) \<and>
      outcome_effects (commit_or_return R bls s1 ts) =
        effects s @ [Sent \<lparr>Statements = Some (slice (statements s) @ [st]),
                           Timestamp64 = uint ts,
                           TransactionId = EncodeGTID R (gtid s)\<rparr>]"
    by (auto simp: dispatch_def set_arm_def append_slice_def return_def
        commit_or_return_effects split: if_splits sum.splits prod.splits)
next
  assume "statements s4 = Some B4 \<and> parse_event R bls s4 ev4 = Running s5"
  then have "buffer_fate B4 s4 s5"
    using buffer_fate_parse_event[of R bls s4 ev4 s5 B4] by blast
  then show "((\<exists>ext. statements s5 = Some (B4 @ ext)) \<and> sent (effects s5) = sent (effects s4) \<and>
         ParseEventsErrors s5 = ParseEventsErrors s4)
      \<or> (statements s5 = Some [] \<and> sent (effects s5) = sent (effects s4) \<and>
           ParseEventsErrors s5 = ParseEventsErrors s4 + 1)
      \<or> (statements s5 = None \<and> ParseEventsErrors s5 = ParseEventsErrors s4 \<and>
           (\<exists>t. sent (effects s5) = sent (effects s4) @ [t] \<and>
              ((\<exists>ext. Statements t = Some (B4 @ ext)) \<or> Statements t = None)))"
    by (simp add: buffer_fate_def)
next
  assume "statements s6 = Some (B6 @ ext6) \<and> parseEvents_loop R bls s6 turns = Running s7 \<and>
      sent (effects s7) = sent (effects s6) \<and> ParseEventsErrors s7 = ParseEventsErrors s6"
  then show "\<exists>ext. statements s7 = Some (B6 @ ext)"
    using buffer_kept_parseEvents_loop[of R bls s6 turns s7 B6 ext6] by simp
qed

theorem intvar_rand_buffered_until_commit_or_begin_witness:
  "autocommit ((formatted (target None))
      \<lparr>statements := Some [\<lparr>Category = BL_SET, Sql = ''SET TIMESTAMP=5'', Charset = None\<rparr>]\<rparr>)
   \<and> IntVar fake (IntVarEvent ''INSERT_ID'' 7) 1 = Inr (''INSERT_ID'', 7)
   \<and> dispatch fake (target None)
       ((formatted (target None))
          \<lparr>statements :=
             Some [\<lparr>Category = BL_SET, Sql = ''SET TIMESTAMP=5'', Charset = None\<rparr>]\<rparr>)
       (IntVarEvent ''INSERT_ID'' 7) =
     Running ((formatted (target None))
                \<lparr>statements :=
                   Some [\<lparr>Category = BL_SET, Sql = ''SET TIMESTAMP=5'', Charset = None\<rparr>,
                         \<lparr>Category = BL_SET, Sql = ''SET INSERT_ID=7'', Charset = None\<rparr>]\<rparr>)
   \<and> Rand fake (RandEvent 3 4) 1 = Inr (3, 4)
   \<and> dispatch fake (target None)
       ((formatted (target None))
          \<lparr>statements :=
             Some [\<lparr>Category = BL_SET, Sql = ''SET TIMESTAMP=5'', Charset = None\<rparr>]\<rparr>)
       (RandEvent 3 4) =
     Running ((formatted (target None))
                \<lparr>statements :=
                   Some [\<lparr>Category = BL_SET, Sql = ''SET TIMESTAMP=5'', Charset = None\<rparr>,
                         \<lparr>Category = BL_SET, Sql = ''SET @@RAND_SEED1=3, @@RAND_SEED2=4'',
                           Charset = None\<rparr>]\<rparr>)
   \<and> set_arm fake (IntVarEvent ''INSERT_ID'' 7)
   \<and> outcome_effects
       (commit_or_return fake (target None)
          ((formatted (target None))
             \<lparr>statements :=
                Some [\<lparr>Category = BL_SET, Sql = ''SET TIMESTAMP=5'', Charset = None\<rparr>,
                      \<lparr>Category = BL_SET, Sql = ''SET INSERT_ID=7'', Charset = None\<rparr>]\<rparr>) 9) =
     [Sent \<lparr>Statements =
              Some [\<lparr>Category = BL_SET, Sql = ''SET TIMESTAMP=5'', Charset = None\<rparr>,
                    \<lparr>Category = BL_SET, Sql = ''SET INSERT_ID=7'', Charset = None\<rparr>],
            Timestamp64 = 9, TransactionId = []\<rparr>]
   \<and> parse_event fake (target None)
       ((formatted (target None))
          \<lparr>statements :=
             Some [\<lparr>Category = BL_SET, Sql = ''SET INSERT_ID=7'', Charset = None\<rparr>]\<rparr>)
       (QueryEvent \<lparr>Database = ''targetdb'', QueryCharset = None, SQL = ''begin''\<rparr> 8) =
     Running ((formatted (target None))
                \<lparr>statements := Some [], autocommit := False, ParseEventsErrors := 1\<rparr>)
   \<and> parseEvents_loop fake (target None)
       ((formatted (target None))
          \<lparr>statements :=
             Some [\<lparr>Category = BL_SET, Sql = ''SET INSERT_ID=7'', Charset = None\<rparr>]\<rparr>)
       [Event (RandEvent 3 4), Event RotateEvent] =
     Running ((formatted (target None))
                \<lparr>statements :=
                   Some ([\<lparr>Category = BL_SET, Sql = ''SET INSERT_ID=7'', Charset = None\<rparr>] @
                         [\<lparr>Category = BL_SET, Sql = ''SET @@RAND_SEED1=3, @@RAND_SEED2=4'',
                           Charset = None\<rparr>])\<rparr>)"
  using intvar_rand_buffered_until_commit_or_begin
    [where R = fake and bls = "target None"
       and s = "(formatted (target None))
          \<lparr>statements :=
             Some [\<lparr>Category = BL_SET, Sql = ''SET TIMESTAMP=5'', Charset = None\<rparr>]\<rparr>"
       and ev = "IntVarEvent ''INSERT_ID'' 7" and name = "''INSERT_ID''" and v = 7
       and ?ev2.0 = "RandEvent 3 4" and ?seed1.0 = 3 and ?seed2.0 = 4
       and ?ev3.0 = "IntVarEvent ''INSERT_ID'' 7"
       and ?s1.0 = "(formatted (target None))
                \<lparr>statements :=
                   Some [\<lparr>Category = BL_SET, Sql = ''SET TIMESTAMP=5'', Charset = None\<rparr>,
                         \<lparr>Category = BL_SET, Sql = ''SET INSERT_ID=7'', Charset = None\<rparr>]\<rparr>"
       and ts = 9
       and ?s4.0 = "(formatted (target None))
          \<lparr>statements :=
             Some [\<lparr>Category = BL_SET, Sql = ''SET INSERT_ID=7'', Charset = None\<rparr>]\<rparr>"
       and ?B4.0 = "[\<lparr>Category = BL_SET, Sql = ''SET INSERT_ID=7'', Charset = None\<rparr>]"
       and ?ev4.0 = "QueryEvent \<lparr>Database = ''targetdb'', QueryCharset = None,
                                  SQL = ''begin''\<rparr> 8"
       and ?s5.0 = "(formatted (target None))
                \<lparr>statements := Some [], autocommit := False, ParseEventsErrors := 1\<rparr>"
       and ?s6.0 = "(formatted (target None))
          \<lparr>statements :=
             Some [\<lparr>Category = BL_SET, Sql = ''SET INSERT_ID=7'', Charset = None\<rparr>]\<rparr>"
       and ?B6.0 = "[\<lparr>Category = BL_SET, Sql = ''SET INSERT_ID=7'', Charset = None\<rparr>]"
       and ?ext6.0 = "[]"
       and turns = "[Event (RandEvent 3 4), Event RotateEvent]"
       and ?s7.0 = "(formatted (target None))
                \<lparr>statements :=
                   Some ([\<lparr>Category = BL_SET, Sql = ''SET INSERT_ID=7'', Charset = None\<rparr>] @
                         [\<lparr>Category = BL_SET, Sql = ''SET @@RAND_SEED1=3, @@RAND_SEED2=4'',
                           Charset = None\<rparr>])\<rparr>"]
  by (simp add: fake_defs code_defs set_arm_def decimal.simps)

end
